theory Spec2Isabelle
  imports Complex_Main "HOL-Library.Multiset"
begin

section \<open>JSON values and thrown errors\<close>

text \<open>
  The service of \<^verbatim>\<open>web/src/movements/movement-service.js\<close> reads deserialized JSON.
  A JavaScript number is modelled by a rational (JSON has neither NaN nor an infinity;
  rounding of doubles is not modelled), so that the tests \<^verbatim>\<open>Math.floor(x) !== x\<close> of the
  source keep their meaning. An object is the list of its own properties.
\<close>

datatype json =
    JUndefined
  | JNull
  | JBool bool
  | JNum rat
  | JStr string
  | JArr "json list"
  | JObj "(string \<times> json) list"

text \<open>What a \<^verbatim>\<open>throw\<close> carries: \<^verbatim>\<open>new Error(msg)\<close>, or the engine's TypeError.\<close>

datatype exn = Error string | TypeError string

definition bindE :: "exn + 'a \<Rightarrow> ('a \<Rightarrow> exn + 'b) \<Rightarrow> exn + 'b" where
  "bindE m f = (case m of Inl e \<Rightarrow> Inl e | Inr x \<Rightarrow> f x)"

text \<open>\<^verbatim>\<open>xs.map(f)\<close> where \<^verbatim>\<open>f\<close> may throw: elements are visited in order, and the first
  throw ends the traversal.\<close>

fun mapE :: "('a \<Rightarrow> exn + 'b) \<Rightarrow> 'a list \<Rightarrow> exn + 'b list" where
  "mapE f [] = Inr []"
| "mapE f (x # xs) =
     (case f x of
        Inl e \<Rightarrow> Inl e
      | Inr y \<Rightarrow> (case mapE f xs of Inl e \<Rightarrow> Inl e | Inr ys \<Rightarrow> Inr (y # ys)))"

text \<open>\<^verbatim>\<open>v[k]\<close> on a value that is known not to be null or undefined: a property the
  value does not have reads as undefined.\<close>

definition getProp :: "json \<Rightarrow> string \<Rightarrow> json" where
  "getProp v k =
     (case v of
        JObj kvs \<Rightarrow> (case map_of kvs k of None \<Rightarrow> JUndefined | Some x \<Rightarrow> x)
      | _ \<Rightarrow> JUndefined)"

text \<open>\<^verbatim>\<open>v[k]\<close> where nothing has been checked about \<^verbatim>\<open>v\<close>: reading a property of
  null or undefined throws a TypeError.\<close>

definition getPropE :: "json \<Rightarrow> string \<Rightarrow> exn + json" where
  "getPropE v k =
     (if v = JNull \<or> v = JUndefined
      then Inl (TypeError (''Cannot read property '' @ k))
      else Inr (getProp v k))"

text \<open>JavaScript truthiness, as used by \<^verbatim>\<open>!x\<close>, \<^verbatim>\<open>x || y\<close> and \<^verbatim>\<open>if (x)\<close>.\<close>

definition truthy :: "json \<Rightarrow> bool" where
  "truthy v =
     (case v of
        JUndefined \<Rightarrow> False
      | JNull \<Rightarrow> False
      | JBool b \<Rightarrow> b
      | JNum n \<Rightarrow> n \<noteq> 0
      | JStr s \<Rightarrow> s \<noteq> []
      | JArr _ \<Rightarrow> True
      | JObj _ \<Rightarrow> True)"

section \<open>ServiceHelpers.assertType\<close>

definition typeName :: "json \<Rightarrow> string" where
  "typeName v =
     (case v of
        JUndefined \<Rightarrow> ''undefined''
      | JNull \<Rightarrow> ''null''
      | JBool _ \<Rightarrow> ''boolean''
      | JNum _ \<Rightarrow> ''number''
      | JStr _ \<Rightarrow> ''string''
      | JArr _ \<Rightarrow> ''array''
      | JObj _ \<Rightarrow> ''object'')"

text \<open>The alternatives of a type expression such as \<^verbatim>\<open>"number|string"\<close>.\<close>

fun alternatives :: "string \<Rightarrow> string list" where
  "alternatives [] = [[]]"
| "alternatives (c # cs) =
     (if c = CHR ''|'' then [] # alternatives cs
      else (case alternatives cs of
              [] \<Rightarrow> [[c]]
            | w # ws \<Rightarrow> (c # w) # ws))"

text \<open>
  Modelled from the spec: \<^verbatim>\<open>ServiceHelpers.assertType(context, value, type, optional)\<close>
  is called throughout the service but its file is not among the sources. The model
  follows the call sites and their documentation (\<^verbatim>\<open>_parseHandScore\<close>: "or null, if it
  was missing") and the published API contract, where every field is a string, number,
  boolean, object or array, required or optional: the value is returned when it has one
  of the named types, a null or undefined value is returned as it is when \<^verbatim>\<open>optional\<close>
  is true, and anything else throws.
\<close>

definition assertType :: "string \<Rightarrow> json \<Rightarrow> string \<Rightarrow> bool \<Rightarrow> exn + json" where
  "assertType context v type optional =
     (if optional \<and> (v = JNull \<or> v = JUndefined) then Inr v
      else if typeName v \<in> set (alternatives type) then Inr v
      else Inl (Error (context @ '' was not of type '' @ type)))"

section \<open>The model objects of the \<^verbatim>\<open>tichu\<close> namespace\<close>

text \<open>One entry of \<^verbatim>\<open>HandScore.calls\<close>: the object \<^verbatim>\<open>{side: position, call: call}\<close>.\<close>

record call_entry =
  side :: string
  call :: string

text \<open>\<^verbatim>\<open>tichu.HandScore\<close>, with the four fields \<^verbatim>\<open>_parseHandScore\<close> assigns. A score is a
  number or a string (the AVG tokens); notes are a string or null.\<close>

record hand_score =
  calls :: "call_entry list"
  northSouthScore :: json
  eastWestScore :: json
  scoreNotes :: json

text \<open>A player: \<^verbatim>\<open>{name: ..., email: ...}\<close>; a property that is not there is undefined.\<close>

record player =
  name :: json
  email :: json

text \<open>\<^verbatim>\<open>tichu.TournamentPair\<close>: the pair number and the players set by
  \<^verbatim>\<open>setPlayers\<close>.\<close>

record tournament_pair =
  pairNo :: rat
  players :: "player list"

definition TournamentPair :: "rat \<Rightarrow> tournament_pair" where
  "TournamentPair n = \<lparr>pairNo = n, players = []\<rparr>"


text \<open>A hand of the movement store is addressed by tournament, north-south pair,
  east-west pair and hand number, the arguments of \<^verbatim>\<open>getOrCreateHand\<close>.\<close>

type_synonym hand_key = "string \<times> rat \<times> rat \<times> rat"

text \<open>\<^verbatim>\<open>tichu.MovementRound\<close>. A field is \<open>None\<close> as long as the parser has not
  assigned it, that is, while it holds whatever the constructor left there.\<close>

record movement_round =
  roundNo :: "rat option"
  isSitOut :: "bool option"
  opponent :: "tournament_pair option"
  position :: "string option"
  table :: "string option"
  isRelayTable :: "bool option"
  hands :: "hand_key list option"


text \<open>\<^verbatim>\<open>tichu.RpcError\<close>, with the four fields the service assigns.\<close>

record rpc_error =
  redirectToLogin :: bool
  error :: string
  detail :: string
  updatedState :: bool

text \<open>An HTTP response as the \<^verbatim>\<open>$http\<close> callbacks receive it.\<close>

record http_response =
  status :: int
  statusText :: string
  data :: json

section \<open>What the service uses and the sources do not define\<close>

text \<open>
  The constants and predicates of the \<^verbatim>\<open>tichu\<close> namespace, the built-in functions of
  the JavaScript engine and the contents of the errors built by
  \<^verbatim>\<open>ServiceHelpers.handleErrorIn\<close> are not in the sources. The service is modelled for
  any choice of them:
  \<^item> \<open>Position\<close>: the values of \<^verbatim>\<open>tichu.Position\<close>, in the order of its keys;
  \<^item> \<open>isValidCall\<close>, \<open>isValidPairPosition\<close>: the predicates of that name;
  \<^item> \<open>NORTH_SOUTH\<close>: \<^verbatim>\<open>tichu.PairPosition.NORTH_SOUTH\<close>;
  \<^item> \<open>roundSide\<close>: what reading the property \<^verbatim>\<open>side\<close> of a movement round gives
    (the parser assigns \<^verbatim>\<open>position\<close> and \<^verbatim>\<open>table\<close>, never \<^verbatim>\<open>side\<close>);
  \<^item> \<open>newRpcError\<close>: the fields of a fresh \<^verbatim>\<open>new tichu.RpcError()\<close>;
  \<^item> \<open>describeError\<close>: the error \<^verbatim>\<open>handleErrorIn($q, $log, path, redirect)\<close> builds
    for a failed response;
  \<^item> \<open>encodeURIComponent\<close>, \<open>toString\<close>: the built-ins of that name;
  \<^item> \<open>formatTimestamp\<close>: the date arithmetic of \<^verbatim>\<open>_parseChange\<close>, which depends on
    the time zone of the browser.
\<close>

record deps =
  Position :: "string list"
  isValidCall :: "string \<Rightarrow> bool"
  isValidPairPosition :: "json \<Rightarrow> bool"
  NORTH_SOUTH :: json
  roundSide :: "movement_round \<Rightarrow> json"
  newRpcError :: rpc_error
  describeError :: "string \<Rightarrow> bool \<Rightarrow> http_response \<Rightarrow> rpc_error"
  encodeURIComponent :: "string \<Rightarrow> string"
  toString :: "rat \<Rightarrow> string"
  formatTimestamp :: "json \<Rightarrow> string"

section \<open>\<^verbatim>\<open>_parseHandScore\<close>\<close>

text \<open>The callback mapped over the positions: null for a missing or empty call, a throw
  for a call that is not valid, the entry otherwise.\<close>

definition parseCall :: "deps \<Rightarrow> string \<Rightarrow> json \<Rightarrow> string \<Rightarrow> exn + call_entry option" where
  "parseCall d handContext callData pos =
     bindE (assertType (handContext @ '' '' @ pos @ '' call'') (getProp callData pos) ''string'' True)
       (\<lambda>c. case c of
               JStr s \<Rightarrow>
                 (if s = [] then Inr None
                  else if \<not> isValidCall d s
                  then Inl (Error (handContext @ '' '' @ pos @ '' call was not a valid call''))
                  else Inr (Some \<lparr>side = pos, call = s\<rparr>))
             | _ \<Rightarrow> Inr None)"

text \<open>\<^verbatim>\<open>.filter(function(call) { return call !== null; })\<close>\<close>

definition dropNulls :: "'a option list \<Rightarrow> 'a list" where
  "dropNulls xs = concat (map (\<lambda>x. case x of None \<Rightarrow> [] | Some y \<Rightarrow> [y]) xs)"

definition parseHandScore :: "deps \<Rightarrow> string \<Rightarrow> json \<Rightarrow> exn + hand_score option" where
  "parseHandScore d handContext scoreData =
     bindE (assertType (handContext @ '' score'') scoreData ''object'' True)
       (\<lambda>present.
          if \<not> truthy present then Inr None
          else
            bindE (assertType (handContext @ '' calls'') (getProp scoreData ''calls'') ''object'' True)
              (\<lambda>callData.
                 bindE (if truthy callData
                        then bindE (mapE (parseCall d handContext callData) (Position d))
                               (\<lambda>cs. Inr (dropNulls cs))
                        else Inr [])
                   (\<lambda>cs.
                      bindE (assertType (handContext @ '' north/south score'')
                               (getProp scoreData ''ns_score'') ''number|string'' False)
                        (\<lambda>ns.
                           bindE (assertType (handContext @ '' east/west score'')
                                    (getProp scoreData ''ew_score'') ''number|string'' False)
                             (\<lambda>ew.
                                bindE (assertType (handContext @ '' scoring notes'')
                                         (getProp scoreData ''notes'') ''string'' True)
                                  (\<lambda>n. Inr (Some \<lparr>calls = cs, northSouthScore = ns,
                                                   eastWestScore = ew,
                                                   scoreNotes = (if truthy n then n else JNull)\<rparr>)))))))"

section \<open>The movement store\<close>

text \<open>\<^verbatim>\<open>tichu.Hand\<close>: the two pairs, the hand number and the score, null while the hand
  is not scored. (The fields are prefixed: \<^verbatim>\<open>HandIdentifier\<close> has fields of the same
  names.)\<close>

record hand =
  hand_northSouthPair :: tournament_pair
  hand_eastWestPair :: tournament_pair
  hand_handNo :: rat
  score :: "hand_score option"

text \<open>\<^verbatim>\<open>tichu.Movement\<close>. \<open>tournamentName\<close> is \<^verbatim>\<open>movement.tournamentId.name\<close>.\<close>

record movement =
  tournamentName :: json
  movementPair :: tournament_pair
  rounds :: "movement_round list"
  allowScoreOverwrites :: "bool option"

text \<open>
  Modelled from the spec: \<^verbatim>\<open>TichuMovementStore\<close> is injected into the service and is
  not among the sources. By the data model of the spec there is at most one hand result
  per key, so the store is a finite map from keys to the objects it holds;
  \<^verbatim>\<open>getOrCreate...\<close> returns the object under a key and creates it first when there is
  none. An assignment to a field of a stored object is an update of the map.
\<close>

record movement_store =
  movements :: "(string \<times> rat) \<rightharpoonup> movement"
  storedHands :: "hand_key \<rightharpoonup> hand"




definition putHand :: "movement_store \<Rightarrow> hand_key \<Rightarrow> hand \<Rightarrow> movement_store" where
  "putHand ms k h = ms\<lparr>storedHands := (storedHands ms)(k \<mapsto> h)\<rparr>"

definition getOrCreateHand ::
  "movement_store \<Rightarrow> string \<Rightarrow> rat \<Rightarrow> rat \<Rightarrow> rat \<Rightarrow> hand \<times> movement_store" where
  "getOrCreateHand ms tournamentId nsPair ewPair handNumber =
     (case storedHands ms (tournamentId, nsPair, ewPair, handNumber) of
        Some h \<Rightarrow> (h, ms)
      | None \<Rightarrow>
          (let h = \<lparr>hand_northSouthPair = TournamentPair nsPair,
                    hand_eastWestPair = TournamentPair ewPair,
                    hand_handNo = handNumber, score = None\<rparr>
           in (h, putHand ms (tournamentId, nsPair, ewPair, handNumber) h)))"

section \<open>Typed reads\<close>




definition assertArray :: "string \<Rightarrow> json \<Rightarrow> exn + json list" where
  "assertArray context v =
     bindE (assertType context v ''array'' False)
       (\<lambda>w. case w of JArr xs \<Rightarrow> Inr xs | _ \<Rightarrow> Inl (Error (context @ '' was not of type array'')))"


section \<open>\<^verbatim>\<open>_parseHand\<close>\<close>




section \<open>\<^verbatim>\<open>_parseMovementRound\<close>\<close>



section \<open>\<^verbatim>\<open>_parseMovement\<close>\<close>







section \<open>The tournament status and \<^verbatim>\<open>_changeHandStatus\<close>\<close>

text \<open>\<^verbatim>\<open>tichu.HandIdentifier\<close>, with the fields \<^verbatim>\<open>_changeHandStatus\<close> reads.\<close>

record hand_identifier =
  handNo :: rat
  tableNo :: rat
  northSouthPair :: tournament_pair
  eastWestPair :: tournament_pair

text \<open>One element of \<^verbatim>\<open>roundStatus\<close>, with its two arrays of hands.\<close>

record round_status =
  unscoredHands :: "hand_identifier list"
  scoredHands :: "hand_identifier list"

record tournament_status =
  roundStatus :: "round_status list"

text \<open>The \<^verbatim>\<open>for\<close> loop of \<^verbatim>\<open>_changeHandStatus\<close>, from index \<open>i\<close> on: the index of the
  first matching hand, or \<open>None\<close> for \<^verbatim>\<open>found = -1\<close>. The loop stops at the first hand
  with a larger hand number.\<close>

fun findHand :: "rat \<Rightarrow> rat \<Rightarrow> rat \<Rightarrow> hand_identifier list \<Rightarrow> nat \<Rightarrow> nat option" where
  "findHand hn nsPair ewPair [] i = None"
| "findHand hn nsPair ewPair (handId # rest) i =
     (if handNo handId = hn \<and> pairNo (northSouthPair handId) = nsPair
         \<and> pairNo (eastWestPair handId) = ewPair
      then Some i
      else if handNo handId > hn then None
      else findHand hn nsPair ewPair rest (Suc i))"

text \<open>The comparison function given to \<^verbatim>\<open>sort\<close>.\<close>

definition compareHands :: "hand_identifier \<Rightarrow> hand_identifier \<Rightarrow> rat" where
  "compareHands handId1 handId2 =
     (let primary = handNo handId1 - handNo handId2
      in if primary = 0 then tableNo handId1 - tableNo handId2 else primary)"

text \<open>\<^verbatim>\<open>Array.prototype.sort\<close> with that comparison: the algorithm is the engine's, and
  is modelled by an insertion sort that keeps the order of hands that compare equal (the
  language standard asks for a stable sort).\<close>

fun insertHand :: "hand_identifier \<Rightarrow> hand_identifier list \<Rightarrow> hand_identifier list" where
  "insertHand h [] = [h]"
| "insertHand h (g # gs) =
     (if compareHands h g \<le> 0 then h # g # gs else g # insertHand h gs)"

fun sortHands :: "hand_identifier list \<Rightarrow> hand_identifier list" where
  "sortHands [] = []"
| "sortHands (h # hs) = insertHand h (sortHands hs)"

text \<open>\<^verbatim>\<open>xs.splice(i, 1)\<close>\<close>

definition splice1 :: "'a list \<Rightarrow> nat \<Rightarrow> 'a list" where
  "splice1 xs i = take i xs @ drop (Suc i) xs"

text \<open>The result is the pair of the two arrays after the call.\<close>

definition changeHandStatus ::
  "rat \<Rightarrow> rat \<Rightarrow> rat \<Rightarrow> hand_identifier list \<Rightarrow> hand_identifier list
     \<Rightarrow> hand_identifier list \<times> hand_identifier list" where
  "changeHandStatus hn nsPair ewPair from_hands to_hands =
     (case findHand hn nsPair ewPair from_hands 0 of
        None \<Rightarrow> (from_hands, to_hands)
      | Some found \<Rightarrow>
          (splice1 from_hands found, sortHands (to_hands @ [from_hands ! found])))"

section \<open>The service\<close>

text \<open>How a promise ends: resolved with a value, or rejected with an
  \<^verbatim>\<open>RpcError\<close> or with what a callback threw.\<close>

datatype rejection = RpcRejection rpc_error | Thrown exn

datatype 'a settled = Resolved 'a | Rejected rejection


text \<open>What \<^verbatim>\<open>$http\<close> answers: the success callback or the error callback is called
  with the response.\<close>

datatype http_outcome = HttpSuccess http_response | HttpError http_response

record http_request =
  httpMethod :: string
  url :: string
  headers :: "(string \<times> string) list"

text \<open>What the callbacks of a pending movement request captured.\<close>

record pending_movement =
  pm_cacheKey :: string
  pm_tournamentId :: string
  pm_pairNo :: rat
  pm_path :: string

text \<open>
  The state of the service: the two injected stores, the cache of promises, and the
  environment as far as the service acts on it: the requests sent so far and the
  pending movement promises, numbered in the order of their creation.

  Modelled from the spec: \<^verbatim>\<open>TichuTournamentStore\<close> is injected and not among the
  sources; it is the finite map from tournament ids to the cached status, and
  \<^verbatim>\<open>hasTournamentStatus\<close> says whether the id has one.
\<close>

record service =
  movementStore :: movement_store
  tournamentStore :: "string \<rightharpoonup> tournament_status"
  movementPromiseCache :: "string \<rightharpoonup> nat"
  pendingMovements :: "nat \<rightharpoonup> pending_movement"
  nextPromise :: nat
  httpRequests :: "http_request list"

text \<open>
  Modelled from the spec: \<^verbatim>\<open>ServiceHelpers.handleErrorIn($q, $log, path, redirect)\<close> is
  not among the sources. Following section 7 of the spec (every failure is reported to
  the caller, and a rejected submission leaves prior state untouched) the callback it
  returns rejects with an \<^verbatim>\<open>RpcError\<close> describing the response, and touches no store
  (it is given none).
\<close>

definition handleErrorIn :: "deps \<Rightarrow> string \<Rightarrow> bool \<Rightarrow> http_response \<Rightarrow> 'a settled" where
  "handleErrorIn d path redirect response =
     Rejected (RpcRejection (describeError d path redirect response))"

definition roundMove ::
  "rat \<Rightarrow> rat \<Rightarrow> rat \<Rightarrow> round_status \<Rightarrow> round_status" where
  "roundMove hn nsPair ewPair r =
     (let (from_hands, to_hands) =
            changeHandStatus hn nsPair ewPair (unscoredHands r) (scoredHands r)
      in r\<lparr>unscoredHands := from_hands, scoredHands := to_hands\<rparr>)"

text \<open>\<^verbatim>\<open>_updateTournamentStatus\<close>: in every round, from unscored to scored.\<close>

definition updateTournamentStatus :: "service \<Rightarrow> string \<Rightarrow> rat \<Rightarrow> rat \<Rightarrow> rat \<Rightarrow> service" where
  "updateTournamentStatus s tournamentId hn nsPair ewPair =
     (case tournamentStore s tournamentId of
        None \<Rightarrow> s
      | Some ts \<Rightarrow>
          s\<lparr>tournamentStore := (tournamentStore s)(tournamentId \<mapsto>
               ts\<lparr>roundStatus := map (roundMove hn nsPair ewPair) (roundStatus ts)\<rparr>)\<rparr>)"

text \<open>The loop in the success callback of \<^verbatim>\<open>clearScore\<close>: from scored to unscored.\<close>

definition roundMoveBack ::
  "rat \<Rightarrow> rat \<Rightarrow> rat \<Rightarrow> round_status \<Rightarrow> round_status" where
  "roundMoveBack hn nsPair ewPair r =
     (let (from_hands, to_hands) =
            changeHandStatus hn nsPair ewPair (scoredHands r) (unscoredHands r)
      in r\<lparr>unscoredHands := to_hands, scoredHands := from_hands\<rparr>)"

text \<open>\<^verbatim>\<open>getOrCreateHand(...).score = v\<close>\<close>

definition setHandScore ::
  "movement_store \<Rightarrow> string \<Rightarrow> rat \<Rightarrow> rat \<Rightarrow> rat \<Rightarrow> hand_score option \<Rightarrow> movement_store" where
  "setHandScore ms tournamentId nsPair ewPair hn v =
     (let (h, ms1) = getOrCreateHand ms tournamentId nsPair ewPair hn
      in putHand ms1 (tournamentId, nsPair, ewPair, hn) (h\<lparr>score := v\<rparr>))"

definition handPath :: "deps \<Rightarrow> string \<Rightarrow> rat \<Rightarrow> rat \<Rightarrow> rat \<Rightarrow> string" where
  "handPath d tournamentId nsPair ewPair hn =
     ''/api/tournaments/'' @ encodeURIComponent d tournamentId
       @ ''/hands/'' @ encodeURIComponent d (toString d hn)
       @ ''/'' @ encodeURIComponent d (toString d nsPair)
       @ ''/'' @ encodeURIComponent d (toString d ewPair)"

text \<open>
  \<^verbatim>\<open>recordScore\<close>, from the answer to its PUT request on: the callback that runs, the
  state it leaves and how the returned promise ends. In the error callback the hand is
  fetched (and created when absent) before the body is parsed, so a parse that throws
  leaves the created hand behind and rejects with what was thrown.
\<close>

definition recordScore ::
  "deps \<Rightarrow> service \<Rightarrow> string \<Rightarrow> rat \<Rightarrow> rat \<Rightarrow> rat \<Rightarrow> hand_score \<Rightarrow> string option \<Rightarrow> http_outcome
     \<Rightarrow> unit settled \<times> service" where
  "recordScore d s tournamentId nsPair ewPair hn sc pairCode outcome =
     (case outcome of
        HttpSuccess _ \<Rightarrow>
          (Resolved (),
           updateTournamentStatus
             (s\<lparr>movementStore :=
                  setHandScore (movementStore s) tournamentId nsPair ewPair hn (Some sc)\<rparr>)
             tournamentId hn nsPair ewPair)
      | HttpError response \<Rightarrow>
          (if status response = 405
           then (case parseHandScore d ''hand score rejection'' (data response) of
                   Inl e \<Rightarrow>
                     (Rejected (Thrown e),
                      s\<lparr>movementStore :=
                           snd (getOrCreateHand (movementStore s) tournamentId nsPair ewPair hn)\<rparr>)
                 | Inr parsed \<Rightarrow>
                     (Rejected (RpcRejection ((newRpcError d)\<lparr>updatedState := True\<rparr>)),
                      updateTournamentStatus
                        (s\<lparr>movementStore :=
                             setHandScore (movementStore s) tournamentId nsPair ewPair hn parsed\<rparr>)
                        tournamentId hn nsPair ewPair))
           else (handleErrorIn d (handPath d tournamentId nsPair ewPair hn) True response, s)))"

text \<open>\<^verbatim>\<open>clearScore\<close>, from the answer to its DELETE request on.\<close>

definition clearScore ::
  "deps \<Rightarrow> service \<Rightarrow> string \<Rightarrow> rat \<Rightarrow> rat \<Rightarrow> rat \<Rightarrow> string option \<Rightarrow> http_outcome
     \<Rightarrow> unit settled \<times> service" where
  "clearScore d s tournamentId nsPair ewPair hn pairCode outcome =
     (case outcome of
        HttpSuccess _ \<Rightarrow>
          (let s1 = s\<lparr>movementStore :=
                        setHandScore (movementStore s) tournamentId nsPair ewPair hn None\<rparr>
           in (Resolved (),
               (case tournamentStore s1 tournamentId of
                  None \<Rightarrow> s1
                | Some ts \<Rightarrow>
                    s1\<lparr>tournamentStore := (tournamentStore s1)(tournamentId \<mapsto>
                         ts\<lparr>roundStatus :=
                              map (roundMoveBack hn nsPair ewPair) (roundStatus ts)\<rparr>)\<rparr>)))
      | HttpError response \<Rightarrow>
          (handleErrorIn d (handPath d tournamentId nsPair ewPair hn) True response, s))"

section \<open>\<^verbatim>\<open>getMovement\<close>\<close>








section \<open>\<^verbatim>\<open>_parseChange\<close> and \<^verbatim>\<open>_parseChangeLog\<close>\<close>

text \<open>\<^verbatim>\<open>tichu.Change(change, changedBy, timestamp)\<close> and \<^verbatim>\<open>tichu.ChangeLog\<close>.\<close>

record change_entry =
  change :: "hand_score option"
  changedBy :: json
  timestamp :: string

record change_log =
  changes :: "change_entry list"

definition parseChange :: "deps \<Rightarrow> json \<Rightarrow> exn + change_entry" where
  "parseChange d entry =
     bindE (getPropE entry ''timestamp_sec'')
       (\<lambda>ts. bindE (assertType ''change log timestamp'' ts ''string'' False)
          (\<lambda>_. bindE (assertType ''change log changedby'' (getProp entry ''changed_by'')
                         ''number'' False)
             (\<lambda>who. bindE (assertType ''change log change'' (getProp entry ''change'')
                            ''object'' False)
                (\<lambda>ch. bindE (if getProp ch ''ns_score'' = JNull \<and> getProp ch ''ew_score'' = JNull
                              then Inr None
                              else parseHandScore d ''change log change'' ch)
                   (\<lambda>c. Inr \<lparr>change = c, changedBy = who,
                               timestamp = formatTimestamp d ts\<rparr>)))))"

definition parseChangeLog :: "deps \<Rightarrow> json \<Rightarrow> exn + change_log" where
  "parseChangeLog d logData =
     bindE (assertType ''change log data'' logData ''object'' False)
       (\<lambda>_. bindE (assertArray ''changes'' (getProp logData ''changes''))
          (\<lambda>cs. bindE (mapE (parseChange d) cs) (\<lambda>xs. Inr \<lparr>changes = xs\<rparr>)))"


section \<open>The statements, in the words of the specification\<close>

text \<open>The call of a seat in the JSON of a score, when it is a string that is not empty.\<close>

definition seatCall :: "json \<Rightarrow> string \<Rightarrow> string option" where
  "seatCall scoreData seat =
     (case getProp (getProp scoreData ''calls'') seat of
        JStr c \<Rightarrow> (if c = [] then None else Some c)
      | _ \<Rightarrow> None)"

text \<open>One entry for each seat that has such a call, in the order of the seats.\<close>

definition expectedCalls :: "deps \<Rightarrow> json \<Rightarrow> call_entry list" where
  "expectedCalls d scoreData =
     concat (map (\<lambda>seat. case seatCall scoreData seat of
                            None \<Rightarrow> []
                          | Some c \<Rightarrow> [\<lparr>side = seat, call = c\<rparr>]) (Position d))"

text \<open>A list of hands is sorted ascending by (handNo, tableNo).\<close>

definition handBefore :: "hand_identifier \<Rightarrow> hand_identifier \<Rightarrow> bool" where
  "handBefore g h = (handNo g < handNo h \<or> (handNo g = handNo h \<and> tableNo g \<le> tableNo h))"

definition handsSorted :: "hand_identifier list \<Rightarrow> bool" where
  "handsSorted hs = sorted_wrt handBefore hs"

text \<open>The hand identifier is the one of hand number, north-south pair and east-west
  pair.\<close>

definition matchesHand :: "rat \<Rightarrow> rat \<Rightarrow> rat \<Rightarrow> hand_identifier \<Rightarrow> bool" where
  "matchesHand hn nsPair ewPair h =
     (handNo h = hn \<and> pairNo (northSouthPair h) = nsPair \<and> pairNo (eastWestPair h) = ewPair)"

text \<open>The hand identifier of the hand, when the first list has one, has moved from the
  first list to the second, and no other entry was added, removed or duplicated; when it
  has none, both lists are as they were.\<close>

definition handMoved ::
  "rat \<Rightarrow> rat \<Rightarrow> rat \<Rightarrow> hand_identifier list \<Rightarrow> hand_identifier list
     \<Rightarrow> hand_identifier list \<Rightarrow> hand_identifier list \<Rightarrow> bool" where
  "handMoved hn nsPair ewPair from_hands to_hands from' to' =
     (if \<exists>h \<in> set from_hands. matchesHand hn nsPair ewPair h
      then \<exists>h \<in> set from_hands. matchesHand hn nsPair ewPair h
             \<and> mset from' = mset from_hands - {#h#} \<and> mset to' = add_mset h (mset to_hands)
      else from' = from_hands \<and> to' = to_hands)"

definition roundSorted :: "round_status \<Rightarrow> bool" where
  "roundSorted r = (handsSorted (unscoredHands r) \<and> handsSorted (scoredHands r))"

text \<open>Round \<open>r'\<close> is round \<open>r\<close> after the hand was scored, and after its score was
  cleared.\<close>

definition scoredInRound :: "rat \<Rightarrow> rat \<Rightarrow> rat \<Rightarrow> round_status \<Rightarrow> round_status \<Rightarrow> bool" where
  "scoredInRound hn nsPair ewPair r r' =
     handMoved hn nsPair ewPair (unscoredHands r) (scoredHands r)
       (unscoredHands r') (scoredHands r')"

definition clearedInRound :: "rat \<Rightarrow> rat \<Rightarrow> rat \<Rightarrow> round_status \<Rightarrow> round_status \<Rightarrow> bool" where
  "clearedInRound hn nsPair ewPair r r' =
     handMoved hn nsPair ewPair (scoredHands r) (unscoredHands r)
       (scoredHands r') (unscoredHands r')"

text \<open>
  Well-formed input, as the API contract describes it. A score is a number or a string;
  a call is absent, null, the empty string or a valid call; the calls are absent, null or
  an object with a well-formed call for every seat; notes are absent, null or a string.
\<close>

definition isScoreValue :: "json \<Rightarrow> bool" where
  "isScoreValue v = (case v of JNum _ \<Rightarrow> True | JStr _ \<Rightarrow> True | _ \<Rightarrow> False)"

definition isOptionalString :: "json \<Rightarrow> bool" where
  "isOptionalString v =
     (case v of JUndefined \<Rightarrow> True | JNull \<Rightarrow> True | JStr _ \<Rightarrow> True | _ \<Rightarrow> False)"

definition wellFormedCall :: "deps \<Rightarrow> json \<Rightarrow> bool" where
  "wellFormedCall d v =
     (case v of
        JUndefined \<Rightarrow> True
      | JNull \<Rightarrow> True
      | JStr s \<Rightarrow> s = [] \<or> isValidCall d s
      | _ \<Rightarrow> False)"

definition wellFormedCalls :: "deps \<Rightarrow> json \<Rightarrow> bool" where
  "wellFormedCalls d v =
     (case v of
        JUndefined \<Rightarrow> True
      | JNull \<Rightarrow> True
      | JObj _ \<Rightarrow> list_all (\<lambda>seat. wellFormedCall d (getProp v seat)) (Position d)
      | _ \<Rightarrow> False)"

definition wellFormedScore :: "deps \<Rightarrow> json \<Rightarrow> bool" where
  "wellFormedScore d scoreData =
     (case scoreData of
        JObj _ \<Rightarrow>
          wellFormedCalls d (getProp scoreData ''calls'')
          \<and> isScoreValue (getProp scoreData ''ns_score'')
          \<and> isScoreValue (getProp scoreData ''ew_score'')
          \<and> isOptionalString (getProp scoreData ''notes'')
      | _ \<Rightarrow> False)"

text \<open>The hand score that the JSON of a score stands for.\<close>

definition expectedScore :: "deps \<Rightarrow> json \<Rightarrow> hand_score" where
  "expectedScore d scoreData =
     \<lparr>calls = expectedCalls d scoreData,
      northSouthScore = getProp scoreData ''ns_score'',
      eastWestScore = getProp scoreData ''ew_score'',
      scoreNotes = (case getProp scoreData ''notes'' of
                      JStr s \<Rightarrow> (if s = [] then JNull else JStr s)
                    | _ \<Rightarrow> JNull)\<rparr>"





text \<open>
  An entry of the change log: an object with a string as \<^verbatim>\<open>timestamp_sec\<close>, a number
  as \<^verbatim>\<open>changed_by\<close> and an object as \<^verbatim>\<open>change\<close>, which is a deletion (both scores
  null) or a well-formed score.
\<close>

definition isDeletion :: "json \<Rightarrow> bool" where
  "isDeletion entry =
     (getProp (getProp entry ''change'') ''ns_score'' = JNull
      \<and> getProp (getProp entry ''change'') ''ew_score'' = JNull)"

definition wellFormedChange :: "deps \<Rightarrow> json \<Rightarrow> bool" where
  "wellFormedChange d entry =
     (case entry of
        JObj _ \<Rightarrow>
          (case getProp entry ''timestamp_sec'' of JStr _ \<Rightarrow> True | _ \<Rightarrow> False)
          \<and> (case getProp entry ''changed_by'' of JNum _ \<Rightarrow> True | _ \<Rightarrow> False)
          \<and> (case getProp entry ''change'' of
                 JObj _ \<Rightarrow> isDeletion entry \<or> wellFormedScore d (getProp entry ''change'')
               | _ \<Rightarrow> False)
      | _ \<Rightarrow> False)"

text \<open>The body of a response that stands for a score or for none: absent, null or a
  well-formed score; and what it stands for.\<close>

definition acceptableBody :: "deps \<Rightarrow> json \<Rightarrow> bool" where
  "acceptableBody d body = (body = JUndefined \<or> body = JNull \<or> wellFormedScore d body)"

definition parsedScoreOf :: "deps \<Rightarrow> json \<Rightarrow> hand_score option" where
  "parsedScoreOf d body =
     (if body = JUndefined \<or> body = JNull then None else Some (expectedScore d body))"

section \<open>Concrete inputs\<close>

definition digitChar :: "nat \<Rightarrow> char" where
  "digitChar n = ''0123456789'' ! n"

fun showNat :: "nat \<Rightarrow> string" where
  "showNat n = (if n < 10 then [digitChar n] else showNat (n div 10) @ [digitChar (n mod 10)])"

definition showNumber :: "rat \<Rightarrow> string" where
  "showNumber q =
     (if q < 0 then CHR ''-'' # showNat (nat \<lfloor>- q\<rfloor>) else showNat (nat \<lfloor>q\<rfloor>))"

text \<open>
  Modelled from the spec: one choice of the parts that are not in the sources, to run
  the model on concrete inputs. The seats and the calls are those of section 4.2 of the
  spec, the sides \<^verbatim>\<open>N\<close> and \<^verbatim>\<open>E\<close> those of the API contract; \<^verbatim>\<open>side\<close> reads the
  position of the round; numbers are printed as integers and
  \<^verbatim>\<open>encodeURIComponent\<close> leaves its argument as it is, which is what it does on
  letters and digits.
\<close>

definition exampleDeps :: deps where
  "exampleDeps =
     \<lparr>Position = [''north'', ''east'', ''south'', ''west''],
      isValidCall = (\<lambda>c. c = ''T'' \<or> c = ''GT'' \<or> c = []),
      isValidPairPosition = (\<lambda>v. v = JStr ''N'' \<or> v = JStr ''E''),
      NORTH_SOUTH = JStr ''N'',
      roundSide = (\<lambda>r. case position r of None \<Rightarrow> JUndefined | Some p \<Rightarrow> JStr p),
      newRpcError = \<lparr>redirectToLogin = False, error = [], detail = [], updatedState = False\<rparr>,
      describeError = (\<lambda>path redirect response.
         \<lparr>redirectToLogin = (redirect \<and> status response = 401),
          error = statusText response, detail = path, updatedState = False\<rparr>),
      encodeURIComponent = (\<lambda>s. s),
      toString = showNumber,
      formatTimestamp = (\<lambda>ts. case ts of JStr s \<Rightarrow> s | _ \<Rightarrow> [])\<rparr>"

text \<open>The score of the API contract's example.\<close>

definition exampleScoreData :: json where
  "exampleScoreData =
     JObj [(''calls'', JObj [(''north'', JStr ''T''), (''east'', JStr ''GT''),
                            (''west'', JStr []), (''south'', JStr [])]),
           (''ns_score'', JNum 150), (''ew_score'', JNum (- 150)),
           (''notes'', JStr ''I am a note'')]"

definition exampleScore :: hand_score where
  "exampleScore =
     \<lparr>calls = [\<lparr>side = ''north'', call = ''T''\<rparr>, \<lparr>side = ''east'', call = ''GT''\<rparr>],
      northSouthScore = JNum 150, eastWestScore = JNum (- 150),
      scoreNotes = JStr ''I am a note''\<rparr>"

definition exampleHandId :: "rat \<Rightarrow> rat \<Rightarrow> hand_identifier" where
  "exampleHandId hn t =
     \<lparr>handNo = hn, tableNo = t, northSouthPair = TournamentPair 4,
      eastWestPair = TournamentPair 6\<rparr>"

definition emptyStore :: movement_store where
  "emptyStore = \<lparr>movements = Map.empty, storedHands = Map.empty\<rparr>"

text \<open>A service that has cached the status of tournament \<^verbatim>\<open>t\<close>: one round, where pairs
  4 and 6 have played hand 2 and still have to play hands 3 and 5.\<close>

definition exampleStatus :: tournament_status where
  "exampleStatus =
     \<lparr>roundStatus = [\<lparr>unscoredHands = [exampleHandId 3 1, exampleHandId 5 1],
                      scoredHands = [exampleHandId 2 1]\<rparr>]\<rparr>"

definition exampleService :: service where
  "exampleService =
     \<lparr>movementStore = emptyStore,
      tournamentStore = [''t'' \<mapsto> exampleStatus],
      movementPromiseCache = Map.empty,
      pendingMovements = Map.empty,
      nextPromise = 0,
      httpRequests = []\<rparr>"

definition exampleResponse :: "int \<Rightarrow> json \<Rightarrow> http_response" where
  "exampleResponse code body = \<lparr>status = code, statusText = [], data = body\<rparr>"

text \<open>The same tournament with a round whose scored hands are not in order.\<close>

definition unsortedStatus :: tournament_status where
  "unsortedStatus =
     \<lparr>roundStatus = [\<lparr>unscoredHands = [],
                      scoredHands = [exampleHandId 5 1, exampleHandId 3 1]\<rparr>]\<rparr>"

definition unsortedService :: service where
  "unsortedService = exampleService\<lparr>tournamentStore := [''t'' \<mapsto> unsortedStatus]\<rparr>"





text \<open>The first entry of the API contract's example change log, and the entry of a
  deletion.\<close>

definition exampleChange :: json where
  "exampleChange =
     JObj [(''change'', exampleScoreData), (''timestamp_sec'', JStr ''1482804837.85''),
           (''changed_by'', JNum 1)]"

definition exampleDeletion :: json where
  "exampleDeletion =
     JObj [(''change'', JObj [(''ns_score'', JNull), (''ew_score'', JNull)]),
           (''timestamp_sec'', JStr ''1482804384.03''), (''changed_by'', JNum 0)]"

text \<open>A score with a call for one seat only and no notes.\<close>

definition sparseScoreData :: json where
  "sparseScoreData =
     JObj [(''calls'', JObj [(''north'', JStr ''T'')]), (''ns_score'', JNum 1),
           (''ew_score'', JNum 2)]"

text \<open>The example service after the score of hand 2 was read from the server.\<close>

definition scoredService :: service where
  "scoredService =
     exampleService\<lparr>movementStore :=
       putHand emptyStore (''t'', 4, 6, 2)
         \<lparr>hand_northSouthPair = TournamentPair 4, hand_eastWestPair = TournamentPair 6,
          hand_handNo = 2, score = Some exampleScore\<rparr>\<rparr>"


section \<open>Properties\<close>


subsection \<open>Hand scores\<close>

lemma bindE_Inr: "bindE m f = Inr y \<longleftrightarrow> (\<exists>x. m = Inr x \<and> f x = Inr y)"
  by (cases m) (simp_all add: bindE_def)

lemma assertType_Inr: "assertType c v t opt = Inr w \<Longrightarrow> w = v"
  by (auto simp: assertType_def split: if_splits)

lemma assertType_optional_string:
  "assertType c v ''string'' True = Inr w \<Longrightarrow> w = v \<and> (v = JNull \<or> v = JUndefined \<or> (\<exists>s. v = JStr s))"
  by (cases v) (auto simp: assertType_def typeName_def split: if_splits)

lemma assertType_optional_object:
  "assertType c v ''object'' True = Inr w \<Longrightarrow> w = v \<and> (v = JNull \<or> v = JUndefined \<or> (\<exists>s. v = JObj s))"
  by (cases v) (auto simp: assertType_def typeName_def split: if_splits)

lemma parseCall_Inr:
  assumes "parseCall d ctx callData p = Inr r"
  shows "r = (case getProp callData p of JStr c \<Rightarrow> (if c = [] then None else Some \<lparr>side = p, call = c\<rparr>) | _ \<Rightarrow> None)
       \<and> (\<forall>c. getProp callData p = JStr c \<longrightarrow> c \<noteq> [] \<longrightarrow> isValidCall d c)"
  using assms
  by (cases "getProp callData p")
     (simp_all add: parseCall_def bindE_def assertType_def typeName_def split: if_splits)

lemma mapE_Inr:
  "mapE f xs = Inr ys \<Longrightarrow> length ys = length xs \<and> (\<forall>i < length xs. f (xs ! i) = Inr (ys ! i))"
proof (induction xs arbitrary: ys)
  case Nil then show ?case by simp
next
  case (Cons x xs)
  then show ?case
    by (auto split: sum.splits simp: nth_Cons split: nat.splits)
qed

lemma mapE_Inr_map:
  "mapE f xs = Inr ys \<Longrightarrow> (\<forall>x \<in> set xs. f x = Inr (g x)) \<Longrightarrow> ys = map g xs"
  by (induction xs arbitrary: ys) (auto split: sum.splits)

lemma mapE_Inr_all:
  "mapE f xs = Inr ys \<Longrightarrow> x \<in> set xs \<Longrightarrow> \<exists>y. f x = Inr y"
  by (induction xs arbitrary: ys) (auto split: sum.splits)

lemma parseHandScore_returned:
  "parseHandScore d ctx JNull = Inr None \<and>
   parseHandScore d ctx JUndefined = Inr None \<and>
   (scoreData \<noteq> JNull \<and> scoreData \<noteq> JUndefined \<and> parseHandScore d ctx scoreData = Inr r \<longrightarrow>
      (\<exists>hs. r = Some hs \<and> calls hs = expectedCalls d scoreData \<and>
            (\<forall>seat \<in> set (Position d). \<forall>c. seatCall scoreData seat = Some c \<longrightarrow> isValidCall d c)))"
proof (intro conjI impI)
  show "parseHandScore d ctx JNull = Inr None"
    by (simp add: parseHandScore_def assertType_def bindE_def truthy_def)
  show "parseHandScore d ctx JUndefined = Inr None"
    by (simp add: parseHandScore_def assertType_def bindE_def truthy_def)
next
  assume a: "scoreData \<noteq> JNull \<and> scoreData \<noteq> JUndefined \<and> parseHandScore d ctx scoreData = Inr r"
  let ?callData = "getProp scoreData ''calls''"
  let ?g = "\<lambda>seat. case getProp ?callData seat of
                      JStr c \<Rightarrow> (if c = [] then None else Some \<lparr>side = seat, call = c\<rparr>)
                    | _ \<Rightarrow> None"
  from a obtain present where p: "assertType (ctx @ '' score'') scoreData ''object'' True = Inr present"
    unfolding parseHandScore_def bindE_Inr by blast
  with a obtain kvs where obj: "scoreData = JObj kvs" and pres: "present = scoreData"
    by (auto dest!: assertType_optional_object)
  have tr: "truthy present" by (simp add: pres obj truthy_def)
  from a p tr obtain callData cs ns ew n where
    cd: "assertType (ctx @ '' calls'') ?callData ''object'' True = Inr callData" and
    cs: "(if truthy callData
          then bindE (mapE (parseCall d ctx callData) (Position d)) (\<lambda>cs. Inr (dropNulls cs))
          else Inr []) = Inr cs" and
    r: "r = Some \<lparr>calls = cs, northSouthScore = ns, eastWestScore = ew,
                    scoreNotes = (if truthy n then n else JNull)\<rparr>"
    unfolding parseHandScore_def by (auto simp: bindE_Inr)
  from cd have cdv: "callData = ?callData"
    and shape: "?callData = JNull \<or> ?callData = JUndefined \<or> (\<exists>s. ?callData = JObj s)"
    by (auto dest!: assertType_optional_object)
  have "cs = expectedCalls d scoreData \<and>
        (\<forall>seat \<in> set (Position d). \<forall>c. seatCall scoreData seat = Some c \<longrightarrow> isValidCall d c)"
  proof (cases "truthy callData")
    case False
    with shape cdv have nullish: "?callData = JNull \<or> ?callData = JUndefined"
      by (auto simp: truthy_def)
    then have none: "\<And>seat. seatCall scoreData seat = None"
      by (auto simp: seatCall_def getProp_def)
    from False cs have "cs = []" by simp
    moreover have "expectedCalls d scoreData = []"
      by (simp add: expectedCalls_def none)
    ultimately show ?thesis by (simp add: none)
  next
    case True
    with cs obtain os where os: "mapE (parseCall d ctx callData) (Position d) = Inr os"
      and csos: "cs = dropNulls os"
      by (auto simp: bindE_Inr)
    have each: "\<forall>seat \<in> set (Position d). parseCall d ctx callData seat = Inr (?g seat)
                  \<and> (\<forall>c. getProp callData seat = JStr c \<longrightarrow> c \<noteq> [] \<longrightarrow> isValidCall d c)"
    proof
      fix seat assume "seat \<in> set (Position d)"
      with os obtain y where y: "parseCall d ctx callData seat = Inr y"
        by (blast dest: mapE_Inr_all)
      from parseCall_Inr[OF y] y cdv
      show "parseCall d ctx callData seat = Inr (?g seat)
              \<and> (\<forall>c. getProp callData seat = JStr c \<longrightarrow> c \<noteq> [] \<longrightarrow> isValidCall d c)"
        by simp
    qed
    then have "os = map ?g (Position d)"
      using os by (intro mapE_Inr_map[where f = "parseCall d ctx callData"]) auto
    then have "cs = concat (map (\<lambda>seat. case ?g seat of None \<Rightarrow> [] | Some y \<Rightarrow> [y]) (Position d))"
      unfolding csos dropNulls_def by (simp add: comp_def)
    also have "\<dots> = expectedCalls d scoreData"
      unfolding expectedCalls_def
    proof (rule arg_cong[where f = concat], rule map_cong[OF refl])
      fix seat
      show "(case ?g seat of None \<Rightarrow> [] | Some y \<Rightarrow> [y]) =
            (case seatCall scoreData seat of None \<Rightarrow> [] | Some c \<Rightarrow> [\<lparr>side = seat, call = c\<rparr>])"
        by (cases "getProp ?callData seat") (simp_all add: seatCall_def)
    qed
    finally have "cs = expectedCalls d scoreData" .
    moreover have "\<forall>seat \<in> set (Position d). \<forall>c. seatCall scoreData seat = Some c \<longrightarrow> isValidCall d c"
      using each cdv by (auto simp: seatCall_def split: json.splits if_splits)
    ultimately show ?thesis by simp
  qed
  with r show "\<exists>hs. r = Some hs \<and> calls hs = expectedCalls d scoreData \<and>
            (\<forall>seat \<in> set (Position d). \<forall>c. seatCall scoreData seat = Some c \<longrightarrow> isValidCall d c)"
    by simp
qed

lemma bindE_Inr_simp: "bindE (Inr x) f = f x"
  by (simp add: bindE_def)

lemma mapE_all_Inr: "(\<forall>x \<in> set xs. f x = Inr (g x)) \<Longrightarrow> mapE f xs = Inr (map g xs)"
  by (induction xs) simp_all

lemma parseCall_wellFormed:
  "wellFormedCall d (getProp callData seat) \<Longrightarrow>
     parseCall d ctx callData seat
       = Inr (case getProp callData seat of
                JStr c \<Rightarrow> (if c = [] then None else Some \<lparr>side = seat, call = c\<rparr>)
              | _ \<Rightarrow> None)"
  by (cases "getProp callData seat")
     (auto simp: wellFormedCall_def parseCall_def bindE_def assertType_def typeName_def)

lemma dropNulls_seats:
  "dropNulls (map (\<lambda>seat. case getProp (getProp scoreData ''calls'') seat of
                            JStr c \<Rightarrow> (if c = [] then None else Some \<lparr>side = seat, call = c\<rparr>)
                          | _ \<Rightarrow> None) seats)
     = concat (map (\<lambda>seat. case seatCall scoreData seat of
                              None \<Rightarrow> []
                            | Some c \<Rightarrow> [\<lparr>side = seat, call = c\<rparr>]) seats)"
proof (induction seats)
  case Nil
  show ?case by (simp add: dropNulls_def)
next
  case (Cons seat seats)
  have "dropNulls (x # xs) = (case x of None \<Rightarrow> [] | Some y \<Rightarrow> [y]) @ dropNulls xs"
    for x :: "call_entry option" and xs
    by (simp add: dropNulls_def)
  with Cons show ?case
    by (cases "getProp (getProp scoreData ''calls'') seat") (simp_all add: seatCall_def)
qed

lemma parsedCalls_wellFormed:
  assumes "wellFormedCalls d (getProp scoreData ''calls'')"
  shows "(if truthy (getProp scoreData ''calls'')
          then bindE (mapE (parseCall d ctx (getProp scoreData ''calls'')) (Position d))
                 (\<lambda>cs. Inr (dropNulls cs))
          else Inr []) = Inr (expectedCalls d scoreData)"
proof (cases "truthy (getProp scoreData ''calls'')")
  case False
  with assms have "getProp scoreData ''calls'' = JNull \<or> getProp scoreData ''calls'' = JUndefined"
    by (cases "getProp scoreData ''calls''") (simp_all add: wellFormedCalls_def truthy_def)
  then have "\<And>seat. seatCall scoreData seat = None"
    by (auto simp: seatCall_def getProp_def)
  then have "expectedCalls d scoreData = []" by (simp add: expectedCalls_def)
  with False show ?thesis by simp
next
  case True
  with assms have "\<forall>seat \<in> set (Position d). wellFormedCall d (getProp (getProp scoreData ''calls'') seat)"
    by (cases "getProp scoreData ''calls''")
       (simp_all add: wellFormedCalls_def truthy_def list_all_iff)
  then have "mapE (parseCall d ctx (getProp scoreData ''calls'')) (Position d)
          = Inr (map (\<lambda>seat. case getProp (getProp scoreData ''calls'') seat of
                            JStr c \<Rightarrow> (if c = [] then None else Some \<lparr>side = seat, call = c\<rparr>)
                          | _ \<Rightarrow> None) (Position d))"
    by (intro mapE_all_Inr) (simp add: parseCall_wellFormed)
  with True show ?thesis
    by (simp add: bindE_def dropNulls_seats expectedCalls_def)
qed

lemma assertType_optional_object_ok:
  "v = JNull \<or> v = JUndefined \<or> (\<exists>kvs. v = JObj kvs) \<Longrightarrow>
     assertType c v ''object'' True = Inr v"
  by (auto simp: assertType_def typeName_def)

lemma assertType_score_ok: "isScoreValue v \<Longrightarrow> assertType c v ''number|string'' False = Inr v"
  by (cases v) (simp_all add: isScoreValue_def assertType_def typeName_def)

lemma assertType_optional_string_ok:
  "isOptionalString v \<Longrightarrow> assertType c v ''string'' True = Inr v"
  by (cases v) (simp_all add: isOptionalString_def assertType_def typeName_def)

lemma notes_orNull:
  "isOptionalString v \<Longrightarrow>
     (if truthy v then v else JNull)
       = (case v of JStr s \<Rightarrow> (if s = [] then JNull else JStr s) | _ \<Rightarrow> JNull)"
  by (cases v) (simp_all add: isOptionalString_def truthy_def)

lemma parseHandScore_wellFormed:
  assumes "wellFormedScore d scoreData"
  shows "parseHandScore d ctx scoreData = Inr (Some (expectedScore d scoreData))"
proof -
  from assms obtain kvs where o: "scoreData = JObj kvs"
    by (cases scoreData) (simp_all add: wellFormedScore_def)
  from assms o have c: "wellFormedCalls d (getProp scoreData ''calls'')"
    and ns: "isScoreValue (getProp scoreData ''ns_score'')"
    and ew: "isScoreValue (getProp scoreData ''ew_score'')"
    and n: "isOptionalString (getProp scoreData ''notes'')"
    by (simp_all add: wellFormedScore_def)
  from c have shape: "getProp scoreData ''calls'' = JNull \<or> getProp scoreData ''calls'' = JUndefined
      \<or> (\<exists>cs. getProp scoreData ''calls'' = JObj cs)"
    by (cases "getProp scoreData ''calls''") (simp_all add: wellFormedCalls_def)
  have a1: "assertType (ctx @ '' score'') scoreData ''object'' True = Inr scoreData"
    unfolding o by (simp add: assertType_def typeName_def)
  have t: "truthy scoreData" unfolding o by (simp add: truthy_def)
  show ?thesis
    by (simp only: parseHandScore_def a1 bindE_Inr_simp t not_True_eq_False if_False
          assertType_optional_object_ok[OF shape] parsedCalls_wellFormed[OF c]
          assertType_score_ok[OF ns] assertType_score_ok[OF ew]
          assertType_optional_string_ok[OF n] notes_orNull[OF n] expectedScore_def)
qed

text \<open>
  Claim C10. \<^verbatim>\<open>_parseHandScore\<close> returns null, and does not throw, when the score
  data is null or undefined. A well-formed score is accepted, and the score returned for
  it has exactly one call entry for each seat whose call is a string that is not empty,
  in the order of the seats, seats with no entry or with the empty string having none.
  Whenever a score is returned for data that is present, its calls are these entries, and
  each of the calls is a valid call.
\<close>

theorem parseHandScore_calls:
  "parseHandScore d ctx JNull = Inr None \<and>
   parseHandScore d ctx JUndefined = Inr None \<and>
   (wellFormedScore d scoreData \<longrightarrow>
      parseHandScore d ctx scoreData = Inr (Some (expectedScore d scoreData))
      \<and> calls (expectedScore d scoreData) = expectedCalls d scoreData) \<and>
   (scoreData \<noteq> JNull \<and> scoreData \<noteq> JUndefined \<and> parseHandScore d ctx scoreData = Inr r \<longrightarrow>
      (\<exists>hs. r = Some hs \<and> calls hs = expectedCalls d scoreData \<and>
            (\<forall>seat \<in> set (Position d). \<forall>c. seatCall scoreData seat = Some c \<longrightarrow> isValidCall d c)))"
proof (intro conjI impI)
  show "parseHandScore d ctx JNull = Inr None"
    by (simp add: parseHandScore_def assertType_def bindE_def truthy_def)
  show "parseHandScore d ctx JUndefined = Inr None"
    by (simp add: parseHandScore_def assertType_def bindE_def truthy_def)
next
  assume "wellFormedScore d scoreData"
  then show "parseHandScore d ctx scoreData = Inr (Some (expectedScore d scoreData))"
    by (rule parseHandScore_wellFormed)
next
  show "calls (expectedScore d scoreData) = expectedCalls d scoreData"
    by (simp add: expectedScore_def)
next
  assume a: "scoreData \<noteq> JNull \<and> scoreData \<noteq> JUndefined \<and> parseHandScore d ctx scoreData = Inr r"
  from a parseHandScore_returned[of d ctx scoreData r]
  show "\<exists>hs. r = Some hs \<and> calls hs = expectedCalls d scoreData \<and>
            (\<forall>seat \<in> set (Position d). \<forall>c. seatCall scoreData seat = Some c \<longrightarrow> isValidCall d c)"
    by blast
qed

lemma sparseScoreData_wellFormed: "wellFormedScore exampleDeps sparseScoreData"
  by (simp add: wellFormedScore_def sparseScoreData_def getProp_def wellFormedCalls_def
        wellFormedCall_def exampleDeps_def isScoreValue_def isOptionalString_def)

theorem parseHandScore_calls_witness:
  "wellFormedScore exampleDeps sparseScoreData \<and>
   parseHandScore exampleDeps ''h'' sparseScoreData
     = Inr (Some \<lparr>calls = [\<lparr>side = ''north'', call = ''T''\<rparr>], northSouthScore = JNum 1,
                    eastWestScore = JNum 2, scoreNotes = JNull\<rparr>)"
proof -
  have e: "expectedScore exampleDeps sparseScoreData
        = \<lparr>calls = [\<lparr>side = ''north'', call = ''T''\<rparr>], northSouthScore = JNum 1,
            eastWestScore = JNum 2, scoreNotes = JNull\<rparr>"
    by (simp add: expectedScore_def expectedCalls_def seatCall_def sparseScoreData_def
          getProp_def exampleDeps_def)
  from parseHandScore_calls[of exampleDeps "''h''" sparseScoreData] sparseScoreData_wellFormed
  have "parseHandScore exampleDeps ''h'' sparseScoreData
          = Inr (Some (expectedScore exampleDeps sparseScoreData))"
    by blast
  with e sparseScoreData_wellFormed show ?thesis by simp
qed

subsection \<open>The hand status\<close>

lemma compareHands_le: "compareHands g h \<le> 0 \<longleftrightarrow> handBefore g h"
  unfolding compareHands_def handBefore_def Let_def by auto

lemma handBefore_total: "\<not> handBefore g h \<Longrightarrow> handBefore h g"
  unfolding handBefore_def by auto

lemma handBefore_trans: "handBefore f g \<Longrightarrow> handBefore g h \<Longrightarrow> handBefore f h"
  unfolding handBefore_def by auto

lemma handBefore_handNo: "handBefore g h \<Longrightarrow> handNo g \<le> handNo h"
  unfolding handBefore_def by auto

lemma mset_insertHand: "mset (insertHand h hs) = add_mset h (mset hs)"
  by (induction hs) simp_all

lemma mset_sortHands: "mset (sortHands hs) = mset hs"
  by (induction hs) (simp_all add: mset_insertHand)

lemma set_insertHand: "set (insertHand h hs) = insert h (set hs)"
  using mset_insertHand[of h hs] by (metis set_mset_add_mset_insert set_mset_mset)

lemma sorted_insertHand:
  "sorted_wrt handBefore hs \<Longrightarrow> sorted_wrt handBefore (insertHand h hs)"
proof (induction hs)
  case Nil
  show ?case by simp
next
  case (Cons g gs)
  show ?case
  proof (cases "compareHands h g \<le> 0")
    case True
    then have hg: "handBefore h g" by (simp add: compareHands_le)
    have "\<forall>x \<in> set gs. handBefore h x"
      using Cons.prems hg by (auto intro: handBefore_trans)
    with True hg Cons.prems show ?thesis by simp
  next
    case False
    then have gh: "handBefore g h" by (simp add: compareHands_le handBefore_total)
    from Cons have "sorted_wrt handBefore (insertHand h gs)" by simp
    with False gh Cons.prems show ?thesis by (simp add: set_insertHand)
  qed
qed

lemma sorted_sortHands: "handsSorted (sortHands hs)"
  unfolding handsSorted_def by (induction hs) (simp_all add: sorted_insertHand)

lemma findHand_Some:
  "findHand hn ns ew hs i = Some j \<Longrightarrow>
     i \<le> j \<and> j - i < length hs \<and> matchesHand hn ns ew (hs ! (j - i))"
proof (induction hs arbitrary: i)
  case Nil
  then show ?case by simp
next
  case (Cons g gs)
  show ?case
  proof (cases "matchesHand hn ns ew g")
    case True
    with Cons.prems show ?thesis by (simp add: matchesHand_def)
  next
    case False
    with Cons.prems have rec: "findHand hn ns ew gs (Suc i) = Some j"
      by (simp add: matchesHand_def split: if_splits)
    from Cons.IH[OF rec] have "Suc i \<le> j" "j - Suc i < length gs"
      "matchesHand hn ns ew (gs ! (j - Suc i))" by simp_all
    moreover from \<open>Suc i \<le> j\<close> have "j - i = Suc (j - Suc i)" by simp
    ultimately show ?thesis by simp
  qed
qed

lemma findHand_None:
  "sorted_wrt handBefore hs \<Longrightarrow> findHand hn ns ew hs i = None \<Longrightarrow>
     \<forall>h \<in> set hs. \<not> matchesHand hn ns ew h"
proof (induction hs arbitrary: i)
  case Nil
  show ?case by simp
next
  case (Cons g gs)
  from Cons.prems(2) have ng: "\<not> matchesHand hn ns ew g"
    by (simp add: matchesHand_def split: if_splits)
  show ?case
  proof (cases "handNo g > hn")
    case True
    have "\<forall>h \<in> set gs. handNo h > hn"
    proof
      fix h assume "h \<in> set gs"
      with Cons.prems(1) have "handBefore g h" by simp
      then have "handNo g \<le> handNo h" by (rule handBefore_handNo)
      with True show "handNo h > hn" by simp
    qed
    then have "\<forall>h \<in> set gs. \<not> matchesHand hn ns ew h"
      by (auto simp: matchesHand_def)
    with ng show ?thesis by simp
  next
    case False
    with Cons.prems(2) ng have "findHand hn ns ew gs (Suc i) = None"
      by (simp add: matchesHand_def split: if_splits)
    with Cons.IH Cons.prems(1) have "\<forall>h \<in> set gs. \<not> matchesHand hn ns ew h" by simp
    with ng show ?thesis by simp
  qed
qed

lemma mset_splice1: "j < length xs \<Longrightarrow> mset (splice1 xs j) = mset xs - {#xs ! j#}"
proof -
  assume j: "j < length xs"
  then have "xs = take j xs @ xs ! j # drop (Suc j) xs" by (rule id_take_nth_drop)
  then have "mset xs = add_mset (xs ! j) (mset (splice1 xs j))"
    unfolding splice1_def by (metis mset.simps(2) mset_append union_mset_add_mset_right)
  then show ?thesis by simp
qed

lemma sorted_splice1: "sorted_wrt P xs \<Longrightarrow> sorted_wrt P (splice1 xs j)"
proof -
  assume s: "sorted_wrt P xs"
  have "sorted_wrt P (take j xs @ drop j xs)" using s by simp
  then have a: "sorted_wrt P (take j xs)" and b: "sorted_wrt P (drop j xs)"
    and c: "\<forall>x \<in> set (take j xs). \<forall>y \<in> set (drop j xs). P x y"
    unfolding sorted_wrt_append by blast+
  have d: "drop (Suc j) xs = tl (drop j xs)" by (simp add: drop_Suc tl_drop)
  have "sorted_wrt P (drop (Suc j) xs)"
    unfolding d using b by (cases "drop j xs") simp_all
  moreover have "set (drop (Suc j) xs) \<subseteq> set (drop j xs)"
    unfolding d by (cases "drop j xs") auto
  ultimately show ?thesis
    unfolding splice1_def sorted_wrt_append using a c by blast
qed

text \<open>What one call of \<^verbatim>\<open>_changeHandStatus\<close> does to two lists, the first sorted.\<close>

lemma changeHandStatus_moves:
  assumes srt: "handsSorted from_hands"
    and res: "changeHandStatus hn ns ew from_hands to_hands = (from', to')"
  shows "handsSorted from'"
    and "handsSorted to_hands \<Longrightarrow> handsSorted to'"
    and "\<not> (\<exists>h \<in> set from_hands. matchesHand hn ns ew h) \<Longrightarrow> from' = from_hands \<and> to' = to_hands"
    and "\<exists>h \<in> set from_hands. matchesHand hn ns ew h \<Longrightarrow>
           \<exists>h \<in> set from_hands. matchesHand hn ns ew h
              \<and> mset from' = mset from_hands - {#h#} \<and> mset to' = add_mset h (mset to_hands)"
proof -
  show "handsSorted from'"
    using srt res unfolding changeHandStatus_def handsSorted_def
    by (cases "findHand hn ns ew from_hands 0") (auto simp: sorted_splice1)
  show "handsSorted to_hands \<Longrightarrow> handsSorted to'"
    using res unfolding changeHandStatus_def
    by (cases "findHand hn ns ew from_hands 0") (auto simp: sorted_sortHands)
  show "\<not> (\<exists>h \<in> set from_hands. matchesHand hn ns ew h) \<Longrightarrow> from' = from_hands \<and> to' = to_hands"
  proof (cases "findHand hn ns ew from_hands 0")
    case None
    with res show ?thesis by (simp add: changeHandStatus_def)
  next
    case (Some j)
    from findHand_Some[OF Some] have "j < length from_hands" "matchesHand hn ns ew (from_hands ! j)"
      by simp_all
    then have "\<exists>h \<in> set from_hands. matchesHand hn ns ew h" by (meson nth_mem)
    then show "\<not> (\<exists>h \<in> set from_hands. matchesHand hn ns ew h) \<Longrightarrow> ?thesis" by simp
  qed
  show "\<exists>h \<in> set from_hands. matchesHand hn ns ew h \<Longrightarrow>
           \<exists>h \<in> set from_hands. matchesHand hn ns ew h
              \<and> mset from' = mset from_hands - {#h#} \<and> mset to' = add_mset h (mset to_hands)"
  proof -
    assume ex: "\<exists>h \<in> set from_hands. matchesHand hn ns ew h"
    show ?thesis
    proof (cases "findHand hn ns ew from_hands 0")
      case None
      with srt ex show ?thesis
        unfolding handsSorted_def by (blast dest: findHand_None)
    next
      case (Some j)
      from findHand_Some[OF Some] have j: "j < length from_hands"
        and m: "matchesHand hn ns ew (from_hands ! j)" by simp_all
      from res Some have f: "from' = splice1 from_hands j"
        and t: "to' = sortHands (to_hands @ [from_hands ! j])"
        by (simp_all add: changeHandStatus_def)
      have "mset from' = mset from_hands - {#from_hands ! j#}"
        unfolding f using j by (rule mset_splice1)
      moreover have "mset to' = add_mset (from_hands ! j) (mset to_hands)"
        unfolding t by (simp add: mset_sortHands)
      moreover have "from_hands ! j \<in> set from_hands" using j by simp
      ultimately show ?thesis using m by blast
    qed
  qed
qed

lemma roundMove_scored:
  assumes "roundSorted r"
  shows "scoredInRound hn ns ew r (roundMove hn ns ew r) \<and> roundSorted (roundMove hn ns ew r)"
proof -
  obtain f t where c: "changeHandStatus hn ns ew (unscoredHands r) (scoredHands r) = (f, t)"
    by fastforce
  from assms have s1: "handsSorted (unscoredHands r)" and s2: "handsSorted (scoredHands r)"
    by (simp_all add: roundSorted_def)
  have u: "unscoredHands (roundMove hn ns ew r) = f" and v: "scoredHands (roundMove hn ns ew r) = t"
    by (simp_all add: roundMove_def c)
  from changeHandStatus_moves[OF s1 c] s2 show ?thesis
    unfolding scoredInRound_def handMoved_def roundSorted_def u v by simp
qed

lemma roundMoveBack_cleared:
  assumes "handsSorted (scoredHands r)"
  shows "clearedInRound hn ns ew r (roundMoveBack hn ns ew r)
         \<and> (handsSorted (unscoredHands r) \<longrightarrow> roundSorted (roundMoveBack hn ns ew r))"
proof -
  obtain f t where c: "changeHandStatus hn ns ew (scoredHands r) (unscoredHands r) = (f, t)"
    by fastforce
  have u: "unscoredHands (roundMoveBack hn ns ew r) = t" and v: "scoredHands (roundMoveBack hn ns ew r) = f"
    by (simp_all add: roundMoveBack_def c)
  from changeHandStatus_moves[OF assms c] show ?thesis
    unfolding clearedInRound_def handMoved_def roundSorted_def u v by simp
qed

lemma roundMoveBack_sorted:
  assumes "roundSorted r"
  shows "clearedInRound hn ns ew r (roundMoveBack hn ns ew r) \<and> roundSorted (roundMoveBack hn ns ew r)"
proof -
  from assms have a: "handsSorted (scoredHands r)" and b: "handsSorted (unscoredHands r)"
    by (simp_all add: roundSorted_def)
  from roundMoveBack_cleared[OF a, of hn ns ew] b show ?thesis by blast
qed

lemma list_all2_map_self:
  "(\<And>x. x \<in> set xs \<Longrightarrow> P x (f x)) \<Longrightarrow> list_all2 P xs (map f xs)"
  by (induction xs) simp_all

lemma tournamentStore_recordScore:
  "tournamentStore (snd (recordScore d s tid ns ew hn sc code (HttpSuccess resp))) tid
     = map_option (\<lambda>ts. ts\<lparr>roundStatus := map (roundMove hn ns ew) (roundStatus ts)\<rparr>)
         (tournamentStore s tid)"
  by (cases "tournamentStore s tid") (simp_all add: recordScore_def updateTournamentStatus_def)

lemma tournamentStore_clearScore:
  "tournamentStore (snd (clearScore d s tid ns ew hn code (HttpSuccess resp))) tid
     = map_option (\<lambda>ts. ts\<lparr>roundStatus := map (roundMoveBack hn ns ew) (roundStatus ts)\<rparr>)
         (tournamentStore s tid)"
  by (cases "tournamentStore s tid") (simp_all add: clearScore_def Let_def)

text \<open>
  Claim C1. Let the status of the tournament be cached, with the unscored and the scored
  hands of every round sorted ascending by (handNo, tableNo). After a successful
  \<^verbatim>\<open>recordScore\<close> the status is still cached, and in every round the identifier of
  the hand, when the unscored hands have one, has moved from the unscored to the scored
  hands; after a successful \<^verbatim>\<open>clearScore\<close> it has moved from the scored to the
  unscored hands. Both lists of every round are sorted as before, and no other entry was
  added, removed or duplicated.
\<close>

theorem hand_status_follows_score:
  assumes "tournamentStore s tid = Some ts"
    and "\<forall>r \<in> set (roundStatus ts). roundSorted r"
  shows "(\<exists>ts'. tournamentStore (snd (recordScore d s tid ns ew hn sc code (HttpSuccess resp))) tid
                  = Some ts'
               \<and> list_all2 (\<lambda>r r'. scoredInRound hn ns ew r r' \<and> roundSorted r')
                    (roundStatus ts) (roundStatus ts'))
       \<and> (\<exists>ts'. tournamentStore (snd (clearScore d s tid ns ew hn code (HttpSuccess resp))) tid
                  = Some ts'
               \<and> list_all2 (\<lambda>r r'. clearedInRound hn ns ew r r' \<and> roundSorted r')
                    (roundStatus ts) (roundStatus ts'))"
proof (intro conjI)
  have "list_all2 (\<lambda>r r'. scoredInRound hn ns ew r r' \<and> roundSorted r')
          (roundStatus ts) (map (roundMove hn ns ew) (roundStatus ts))"
    using assms(2) by (intro list_all2_map_self) (simp add: roundMove_scored)
  then show "\<exists>ts'. tournamentStore (snd (recordScore d s tid ns ew hn sc code (HttpSuccess resp))) tid
                  = Some ts'
               \<and> list_all2 (\<lambda>r r'. scoredInRound hn ns ew r r' \<and> roundSorted r')
                    (roundStatus ts) (roundStatus ts')"
    by (simp add: tournamentStore_recordScore assms(1))
  have "list_all2 (\<lambda>r r'. clearedInRound hn ns ew r r' \<and> roundSorted r')
          (roundStatus ts) (map (roundMoveBack hn ns ew) (roundStatus ts))"
    using assms(2) by (intro list_all2_map_self) (simp add: roundMoveBack_sorted)
  then show "\<exists>ts'. tournamentStore (snd (clearScore d s tid ns ew hn code (HttpSuccess resp))) tid
                  = Some ts'
               \<and> list_all2 (\<lambda>r r'. clearedInRound hn ns ew r r' \<and> roundSorted r')
                    (roundStatus ts) (roundStatus ts')"
    by (simp add: tournamentStore_clearScore assms(1))
qed

lemma exampleStatus_sorted: "\<forall>r \<in> set (roundStatus exampleStatus). roundSorted r"
  by (simp add: exampleStatus_def roundSorted_def handsSorted_def handBefore_def exampleHandId_def)

lemma exampleService_status: "tournamentStore exampleService ''t'' = Some exampleStatus"
  by (simp add: exampleService_def)

theorem hand_status_follows_score_witness:
  "tournamentStore exampleService ''t'' = Some exampleStatus \<and>
   roundSorted (hd (roundStatus exampleStatus)) \<and>
   (\<exists>ts'. tournamentStore (snd (recordScore exampleDeps exampleService ''t'' 4 6 3 exampleScore
              None (HttpSuccess (exampleResponse 204 JNull)))) ''t'' = Some ts'
          \<and> list_all2 (\<lambda>r r'. scoredInRound 3 4 6 r r' \<and> roundSorted r')
               (roundStatus exampleStatus) (roundStatus ts')) \<and>
   tournamentStore (snd (recordScore exampleDeps exampleService ''t'' 4 6 3 exampleScore
      None (HttpSuccess (exampleResponse 204 JNull)))) ''t''
     = Some \<lparr>roundStatus = [\<lparr>unscoredHands = [exampleHandId 5 1],
                              scoredHands = [exampleHandId 2 1, exampleHandId 3 1]\<rparr>]\<rparr>"
proof -
  have a: "roundSorted (hd (roundStatus exampleStatus))"
    using exampleStatus_sorted by (simp add: exampleStatus_def)
  have b: "tournamentStore (snd (recordScore exampleDeps exampleService ''t'' 4 6 3 exampleScore
      None (HttpSuccess (exampleResponse 204 JNull)))) ''t''
     = Some \<lparr>roundStatus = [\<lparr>unscoredHands = [exampleHandId 5 1],
                              scoredHands = [exampleHandId 2 1, exampleHandId 3 1]\<rparr>]\<rparr>"
    by (simp add: tournamentStore_recordScore exampleService_status exampleStatus_def
          roundMove_def changeHandStatus_def exampleHandId_def TournamentPair_def splice1_def
          compareHands_def)
  from hand_status_follows_score[OF exampleService_status exampleStatus_sorted,
      where d = exampleDeps and ns = 4 and ew = 6 and hn = 3 and sc = exampleScore
        and code = None and resp = "exampleResponse 204 JNull"]
  have "\<exists>ts'. tournamentStore (snd (recordScore exampleDeps exampleService ''t'' 4 6 3 exampleScore
              None (HttpSuccess (exampleResponse 204 JNull)))) ''t'' = Some ts'
          \<and> list_all2 (\<lambda>r r'. scoredInRound 3 4 6 r r' \<and> roundSorted r')
               (roundStatus exampleStatus) (roundStatus ts')"
    by (rule conjunct1)
  with a b exampleService_status show ?thesis by blast
qed

subsection \<open>The stored score\<close>

lemma storedHands_setHandScore:
  "\<exists>h. storedHands (setHandScore ms tid ns ew hn v) (tid, ns, ew, hn) = Some h \<and> score h = v"
  by (cases "storedHands ms (tid, ns, ew, hn)")
     (simp_all add: setHandScore_def getOrCreateHand_def putHand_def Let_def)

lemma getOrCreateHand_stored:
  "storedHands ms (tid, ns, ew, hn) = Some h \<Longrightarrow> getOrCreateHand ms tid ns ew hn = (h, ms)"
  by (simp add: getOrCreateHand_def)

lemma read_after_setHandScore:
  "score (fst (getOrCreateHand (setHandScore ms tid ns ew hn v) tid ns ew hn)) = v \<and>
   snd (getOrCreateHand (setHandScore ms tid ns ew hn v) tid ns ew hn)
     = setHandScore ms tid ns ew hn v"
proof -
  obtain h where h: "storedHands (setHandScore ms tid ns ew hn v) (tid, ns, ew, hn) = Some h"
    and v: "score h = v"
    using storedHands_setHandScore by blast
  from getOrCreateHand_stored[OF h] v show ?thesis by simp
qed

lemma movementStore_updateTournamentStatus:
  "movementStore (updateTournamentStatus s tid hn ns ew) = movementStore s"
  by (cases "tournamentStore s tid") (simp_all add: updateTournamentStatus_def)

text \<open>
  Claim C4. After a successful \<^verbatim>\<open>recordScore\<close> the returned promise is resolved, and
  reading the hand under the same key from the movement store gives a hand whose score
  is the submitted score (calls, north-south score, east-west score and notes), the read
  leaving the store as it is.
\<close>

theorem recordScore_read_back:
  assumes "recordScore d s tid ns ew hn sc code (HttpSuccess resp) = (res, s')"
  shows "res = Resolved () \<and>
         score (fst (getOrCreateHand (movementStore s') tid ns ew hn)) = Some sc \<and>
         snd (getOrCreateHand (movementStore s') tid ns ew hn) = movementStore s'"
proof -
  from assms have r: "res = Resolved ()"
    and m: "movementStore s' = setHandScore (movementStore s) tid ns ew hn (Some sc)"
    by (auto simp: recordScore_def movementStore_updateTournamentStatus)
  show ?thesis unfolding m using r read_after_setHandScore by simp
qed

theorem recordScore_read_back_witness:
  "fst (recordScore exampleDeps exampleService ''t'' 4 6 3 exampleScore None
          (HttpSuccess (exampleResponse 204 JNull))) = Resolved () \<and>
   score (fst (getOrCreateHand (movementStore (snd (recordScore exampleDeps exampleService ''t''
            4 6 3 exampleScore None (HttpSuccess (exampleResponse 204 JNull))))) ''t'' 4 6 3))
     = Some exampleScore"
  using recordScore_read_back[of exampleDeps exampleService "''t''" 4 6 3 exampleScore None
          "exampleResponse 204 JNull"
          "fst (recordScore exampleDeps exampleService ''t'' 4 6 3 exampleScore None
                 (HttpSuccess (exampleResponse 204 JNull)))"
          "snd (recordScore exampleDeps exampleService ''t'' 4 6 3 exampleScore None
                 (HttpSuccess (exampleResponse 204 JNull)))"]
  by simp

subsection \<open>A rejected submission\<close>

text \<open>
  Claim C2. When the request of \<^verbatim>\<open>recordScore\<close> fails with a status other than 405,
  the whole state of the service, with the movement store and the cached tournament
  status in it, is as before, and the returned promise is rejected.
\<close>

theorem recordScore_failure_leaves_state:
  assumes "status response \<noteq> 405"
  shows "\<exists>e. recordScore d s tid ns ew hn sc code (HttpError response)
               = (Rejected (RpcRejection e), s)"
  using assms by (simp add: recordScore_def handleErrorIn_def)

theorem recordScore_failure_leaves_state_witness:
  "status (exampleResponse 500 JNull) \<noteq> 405 \<and>
   (\<exists>e. recordScore exampleDeps exampleService ''t'' 4 6 3 exampleScore None
           (HttpError (exampleResponse 500 JNull)) = (Rejected (RpcRejection e), exampleService))"
proof -
  have a: "status (exampleResponse 500 JNull) \<noteq> 405" by (simp add: exampleResponse_def)
  from recordScore_failure_leaves_state[OF a] a show ?thesis by blast
qed

lemma parseHandScore_acceptable:
  assumes "acceptableBody d body"
  shows "parseHandScore d ctx body = Inr (parsedScoreOf d body)"
proof (cases "body = JUndefined \<or> body = JNull")
  case True
  then show ?thesis
    by (auto simp: parsedScoreOf_def parseHandScore_def assertType_def bindE_def truthy_def)
next
  case False
  with assms have "wellFormedScore d body" by (simp add: acceptableBody_def)
  with False show ?thesis by (simp add: parsedScoreOf_def parseHandScore_wellFormed)
qed

text \<open>
  Claim C3, amended. Let the request of \<^verbatim>\<open>recordScore\<close> fail with status 405, and
  let the body of the response be absent, null or a well-formed score. Then the score of
  the cached hand is the score parsed from the body, \<^verbatim>\<open>_updateTournamentStatus\<close> has
  run for the hand (so that, when the lists of every round are sorted, the hand has moved
  from the unscored to the scored hands of every round that had it, as after a successful
  submission), and the returned promise is rejected with an \<^verbatim>\<open>RpcError\<close> whose
  \<^verbatim>\<open>updatedState\<close> is true.
\<close>

theorem recordScore_405_updates_state:
  assumes "status response = 405"
    and "acceptableBody d (data response)"
    and "recordScore d s tid ns ew hn sc code (HttpError response) = (res, s')"
  shows "(\<exists>e. res = Rejected (RpcRejection e) \<and> updatedState e) \<and>
         parseHandScore d ''hand score rejection'' (data response)
           = Inr (parsedScoreOf d (data response)) \<and>
         score (fst (getOrCreateHand (movementStore s') tid ns ew hn))
           = parsedScoreOf d (data response) \<and>
         tournamentStore s' tid
           = map_option (\<lambda>ts. ts\<lparr>roundStatus := map (roundMove hn ns ew) (roundStatus ts)\<rparr>)
               (tournamentStore s tid) \<and>
         (\<forall>ts. tournamentStore s tid = Some ts \<and> list_all roundSorted (roundStatus ts) \<longrightarrow>
            (\<exists>ts'. tournamentStore s' tid = Some ts'
               \<and> list_all2 (\<lambda>r r'. scoredInRound hn ns ew r r' \<and> roundSorted r')
                    (roundStatus ts) (roundStatus ts')))"
proof (intro conjI)
  let ?parsed = "parsedScoreOf d (data response)"
  let ?s1 = "s\<lparr>movementStore := setHandScore (movementStore s) tid ns ew hn ?parsed\<rparr>"
  show p: "parseHandScore d ''hand score rejection'' (data response) = Inr ?parsed"
    using assms(2) by (rule parseHandScore_acceptable)
  from assms(1,3) p have r: "res = Rejected (RpcRejection ((newRpcError d)\<lparr>updatedState := True\<rparr>))"
    and s': "s' = updateTournamentStatus ?s1 tid hn ns ew"
    by (simp_all add: recordScore_def)
  from r show "\<exists>e. res = Rejected (RpcRejection e) \<and> updatedState e" by simp
  have m: "movementStore s' = setHandScore (movementStore s) tid ns ew hn ?parsed"
    unfolding s' by (simp add: movementStore_updateTournamentStatus)
  show "score (fst (getOrCreateHand (movementStore s') tid ns ew hn)) = ?parsed"
    unfolding m using read_after_setHandScore by simp
  show t: "tournamentStore s' tid
           = map_option (\<lambda>ts. ts\<lparr>roundStatus := map (roundMove hn ns ew) (roundStatus ts)\<rparr>)
               (tournamentStore s tid)"
    unfolding s' by (cases "tournamentStore s tid") (simp_all add: updateTournamentStatus_def)
  show "\<forall>ts. tournamentStore s tid = Some ts \<and> list_all roundSorted (roundStatus ts) \<longrightarrow>
               (\<exists>ts'. tournamentStore s' tid = Some ts'
                  \<and> list_all2 (\<lambda>r r'. scoredInRound hn ns ew r r' \<and> roundSorted r')
                       (roundStatus ts) (roundStatus ts'))"
  proof (intro allI impI)
    fix ts
    assume h: "tournamentStore s tid = Some ts \<and> list_all roundSorted (roundStatus ts)"
    then have "list_all2 (\<lambda>r r'. scoredInRound hn ns ew r r' \<and> roundSorted r')
          (roundStatus ts) (map (roundMove hn ns ew) (roundStatus ts))"
      by (intro list_all2_map_self) (simp add: roundMove_scored list_all_iff)
    with h t show "\<exists>ts'. tournamentStore s' tid = Some ts'
                  \<and> list_all2 (\<lambda>r r'. scoredInRound hn ns ew r r' \<and> roundSorted r')
                       (roundStatus ts) (roundStatus ts')"
      by simp
  qed
qed

lemma exampleScoreData_wellFormed: "wellFormedScore exampleDeps exampleScoreData"
  by (simp add: wellFormedScore_def exampleScoreData_def getProp_def wellFormedCalls_def
        wellFormedCall_def exampleDeps_def isScoreValue_def isOptionalString_def)

lemma expectedScore_exampleScoreData: "expectedScore exampleDeps exampleScoreData = exampleScore"
  by (simp add: expectedScore_def expectedCalls_def seatCall_def exampleScoreData_def
        getProp_def exampleDeps_def exampleScore_def)

theorem recordScore_405_updates_state_witness:
  "status (exampleResponse 405 exampleScoreData) = 405 \<and>
   acceptableBody exampleDeps (data (exampleResponse 405 exampleScoreData)) \<and>
   score (fst (getOrCreateHand (movementStore (snd (recordScore exampleDeps exampleService ''t''
            4 6 3 exampleScore None (HttpError (exampleResponse 405 exampleScoreData))))) ''t'' 4 6 3))
     = Some exampleScore \<and>
   tournamentStore (snd (recordScore exampleDeps exampleService ''t'' 4 6 3 exampleScore None
            (HttpError (exampleResponse 405 exampleScoreData)))) ''t''
     = Some \<lparr>roundStatus = [\<lparr>unscoredHands = [exampleHandId 5 1],
                              scoredHands = [exampleHandId 2 1, exampleHandId 3 1]\<rparr>]\<rparr>"
proof -
  have a: "status (exampleResponse 405 exampleScoreData) = 405"
    by (simp add: exampleResponse_def)
  have b: "acceptableBody exampleDeps (data (exampleResponse 405 exampleScoreData))"
    using exampleScoreData_wellFormed by (simp add: acceptableBody_def exampleResponse_def)
  have "exampleScoreData \<noteq> JUndefined \<and> exampleScoreData \<noteq> JNull"
    by (simp add: exampleScoreData_def)
  then have c: "parsedScoreOf exampleDeps (data (exampleResponse 405 exampleScoreData))
             = Some exampleScore"
    by (simp add: parsedScoreOf_def exampleResponse_def expectedScore_exampleScoreData)
  have d: "map_option (\<lambda>ts. ts\<lparr>roundStatus := map (roundMove 3 4 6) (roundStatus ts)\<rparr>)
             (tournamentStore exampleService ''t'')
        = Some \<lparr>roundStatus = [\<lparr>unscoredHands = [exampleHandId 5 1],
                              scoredHands = [exampleHandId 2 1, exampleHandId 3 1]\<rparr>]\<rparr>"
    by (simp add: exampleService_status exampleStatus_def
          roundMove_def changeHandStatus_def exampleHandId_def TournamentPair_def splice1_def
          compareHands_def)
  from recordScore_405_updates_state[OF a b, of exampleService "''t''" 4 6 3
          exampleScore None
          "fst (recordScore exampleDeps exampleService ''t'' 4 6 3 exampleScore None
                 (HttpError (exampleResponse 405 exampleScoreData)))"
          "snd (recordScore exampleDeps exampleService ''t'' 4 6 3 exampleScore None
                 (HttpError (exampleResponse 405 exampleScoreData)))"]
  have "score (fst (getOrCreateHand (movementStore (snd (recordScore exampleDeps exampleService
            ''t'' 4 6 3 exampleScore None (HttpError (exampleResponse 405 exampleScoreData)))))
            ''t'' 4 6 3))
          = parsedScoreOf exampleDeps (data (exampleResponse 405 exampleScoreData))
        \<and> tournamentStore (snd (recordScore exampleDeps exampleService ''t'' 4 6 3 exampleScore
            None (HttpError (exampleResponse 405 exampleScoreData)))) ''t''
          = map_option (\<lambda>ts. ts\<lparr>roundStatus := map (roundMove 3 4 6) (roundStatus ts)\<rparr>)
              (tournamentStore exampleService ''t'')"
    by simp
  with a b c d show ?thesis by simp
qed

text \<open>A 405 response whose body is not a score: the parse throws, the promise is
  rejected with what was thrown, and the hand is still among the unscored hands.\<close>

theorem recordScore_405_counterexample:
  "status (exampleResponse 405 (JStr ''Method Not Allowed'')) = 405 \<and>
   fst (recordScore exampleDeps exampleService ''t'' 4 6 3 exampleScore None
          (HttpError (exampleResponse 405 (JStr ''Method Not Allowed''))))
     = Rejected (Thrown (Error ''hand score rejection score was not of type object'')) \<and>
   tournamentStore (snd (recordScore exampleDeps exampleService ''t'' 4 6 3 exampleScore None
          (HttpError (exampleResponse 405 (JStr ''Method Not Allowed''))))) ''t''
     = Some exampleStatus"
  by (simp add: recordScore_def exampleResponse_def parseHandScore_def assertType_def
        typeName_def bindE_def exampleService_def)

subsection \<open>Clearing a score\<close>

lemma list_all2_map_self_weak:
  "(\<forall>x \<in> set xs. P x (f x)) \<Longrightarrow> list_all2 P xs (map f xs)"
  by (induction xs) simp_all

text \<open>
  Claim C5, amended. After a successful \<^verbatim>\<open>clearScore\<close> the score of the cached hand
  is null. If the status of the tournament is cached and the scored hands of every round
  are sorted ascending by (handNo, tableNo), then in every round the identifier of the
  hand, when the scored hands have one, has moved from the scored to the unscored hands,
  and no other entry was added, removed or duplicated.
\<close>

theorem clearScore_clears_and_moves:
  assumes "clearScore d s tid ns ew hn code (HttpSuccess resp) = (res, s')"
  shows "res = Resolved () \<and>
         score (fst (getOrCreateHand (movementStore s') tid ns ew hn)) = None \<and>
         (tournamentStore s tid = Some ts \<and> list_all (\<lambda>r. handsSorted (scoredHands r)) (roundStatus ts)
            \<longrightarrow> (\<exists>ts'. tournamentStore s' tid = Some ts'
                    \<and> list_all2 (clearedInRound hn ns ew) (roundStatus ts) (roundStatus ts')))"
proof (intro conjI impI)
  from assms have s': "s' = snd (clearScore d s tid ns ew hn code (HttpSuccess resp))" by simp
  from assms show "res = Resolved ()"
    by (cases "tournamentStore s tid") (auto simp: clearScore_def Let_def)
  have m: "movementStore s' = setHandScore (movementStore s) tid ns ew hn None"
    unfolding s' by (cases "tournamentStore s tid") (simp_all add: clearScore_def Let_def)
  show "score (fst (getOrCreateHand (movementStore s') tid ns ew hn)) = None"
    unfolding m using read_after_setHandScore by simp
  assume h: "tournamentStore s tid = Some ts
               \<and> list_all (\<lambda>r. handsSorted (scoredHands r)) (roundStatus ts)"
  then have "\<forall>r \<in> set (roundStatus ts). clearedInRound hn ns ew r (roundMoveBack hn ns ew r)"
    by (simp add: roundMoveBack_cleared list_all_iff)
  then have "list_all2 (clearedInRound hn ns ew) (roundStatus ts)
          (map (roundMoveBack hn ns ew) (roundStatus ts))"
    by (rule list_all2_map_self_weak)
  with h show "\<exists>ts'. tournamentStore s' tid = Some ts'
                    \<and> list_all2 (clearedInRound hn ns ew) (roundStatus ts) (roundStatus ts')"
    unfolding s' by (simp add: tournamentStore_clearScore)
qed

lemma scoredService_status: "tournamentStore scoredService ''t'' = Some exampleStatus"
  by (simp add: scoredService_def exampleService_def)

lemma scoredService_hand:
  "score (fst (getOrCreateHand (movementStore scoredService) ''t'' 4 6 2)) = Some exampleScore"
  by (simp add: scoredService_def getOrCreateHand_def putHand_def emptyStore_def)

theorem clearScore_clears_and_moves_witness:
  "score (fst (getOrCreateHand (movementStore scoredService) ''t'' 4 6 2)) = Some exampleScore \<and>
   tournamentStore scoredService ''t'' = Some exampleStatus \<and>
   list_all (\<lambda>r. handsSorted (scoredHands r)) (roundStatus exampleStatus) \<and>
   score (fst (getOrCreateHand (movementStore (snd (clearScore exampleDeps scoredService ''t''
            4 6 2 None (HttpSuccess (exampleResponse 204 JNull))))) ''t'' 4 6 2)) = None \<and>
   (\<exists>ts'. tournamentStore (snd (clearScore exampleDeps scoredService ''t'' 4 6 2 None
              (HttpSuccess (exampleResponse 204 JNull)))) ''t'' = Some ts'
          \<and> list_all2 (clearedInRound 2 4 6) (roundStatus exampleStatus) (roundStatus ts')) \<and>
   tournamentStore (snd (clearScore exampleDeps scoredService ''t'' 4 6 2 None
              (HttpSuccess (exampleResponse 204 JNull)))) ''t''
     = Some \<lparr>roundStatus = [\<lparr>unscoredHands = [exampleHandId 2 1, exampleHandId 3 1,
                                                exampleHandId 5 1],
                              scoredHands = []\<rparr>]\<rparr>"
proof -
  have a: "list_all (\<lambda>r. handsSorted (scoredHands r)) (roundStatus exampleStatus)"
    using exampleStatus_sorted by (simp add: roundSorted_def list_all_iff)
  have b: "tournamentStore (snd (clearScore exampleDeps scoredService ''t'' 4 6 2 None
              (HttpSuccess (exampleResponse 204 JNull)))) ''t''
     = Some \<lparr>roundStatus = [\<lparr>unscoredHands = [exampleHandId 2 1, exampleHandId 3 1,
                                                exampleHandId 5 1],
                              scoredHands = []\<rparr>]\<rparr>"
    by (simp add: tournamentStore_clearScore scoredService_status exampleStatus_def
          roundMoveBack_def changeHandStatus_def exampleHandId_def TournamentPair_def splice1_def
          compareHands_def)
  from clearScore_clears_and_moves[of exampleDeps scoredService "''t''" 4 6 2 None
          "exampleResponse 204 JNull"
          "fst (clearScore exampleDeps scoredService ''t'' 4 6 2 None
                 (HttpSuccess (exampleResponse 204 JNull)))"
          "snd (clearScore exampleDeps scoredService ''t'' 4 6 2 None
                 (HttpSuccess (exampleResponse 204 JNull)))" exampleStatus]
    a scoredService_status
  have "score (fst (getOrCreateHand (movementStore (snd (clearScore exampleDeps scoredService ''t''
            4 6 2 None (HttpSuccess (exampleResponse 204 JNull))))) ''t'' 4 6 2)) = None \<and>
        (\<exists>ts'. tournamentStore (snd (clearScore exampleDeps scoredService ''t'' 4 6 2 None
              (HttpSuccess (exampleResponse 204 JNull)))) ''t'' = Some ts'
          \<and> list_all2 (clearedInRound 2 4 6) (roundStatus exampleStatus) (roundStatus ts'))"
    by simp
  with a b scoredService_status scoredService_hand show ?thesis by simp
qed

text \<open>Scored hands out of order: the search stops at hand 5 and hand 3 stays scored.\<close>

theorem clearScore_unsorted_counterexample:
  "tournamentStore unsortedService ''t'' = Some unsortedStatus \<and>
   exampleHandId 3 1 \<in> set (scoredHands (hd (roundStatus unsortedStatus))) \<and>
   matchesHand 3 4 6 (exampleHandId 3 1) \<and>
   tournamentStore (snd (clearScore exampleDeps unsortedService ''t'' 4 6 3 None
      (HttpSuccess (exampleResponse 204 JNull)))) ''t'' = Some unsortedStatus"
  by (simp add: tournamentStore_clearScore unsortedService_def unsortedStatus_def
        roundMoveBack_def changeHandStatus_def exampleHandId_def TournamentPair_def
        matchesHand_def)

subsection \<open>The change log\<close>

lemma assertType_required_object:
  "assertType c v ''object'' False = Inr w \<Longrightarrow> w = v \<and> (\<exists>kvs. v = JObj kvs)"
  by (cases v) (auto simp: assertType_def typeName_def split: if_splits)

lemma parseHandScore_present:
  "parseHandScore d ctx (JObj kvs) = Inr r \<Longrightarrow> \<exists>hs. r = Some hs"
  by (auto simp: parseHandScore_def bindE_Inr assertType_def typeName_def truthy_def)

lemma parseChange_accepted:
  assumes "parseChange d entry = Inr c"
  shows "(change c = None \<longleftrightarrow> isDeletion entry) \<and>
         (\<not> isDeletion entry
            \<longrightarrow> parseHandScore d ''change log change'' (getProp entry ''change'')
                  = Inr (change c))"
proof -
  let ?ch = "getProp entry ''change''"
  from assms obtain ts0 ts who ch x where
    e: "getPropE entry ''timestamp_sec'' = Inr ts0" and
    t: "assertType ''change log timestamp'' ts0 ''string'' False = Inr ts" and
    w: "assertType ''change log changedby'' (getProp entry ''changed_by'') ''number'' False
          = Inr who" and
    a: "assertType ''change log change'' ?ch ''object'' False = Inr ch" and
    b: "(if getProp ch ''ns_score'' = JNull \<and> getProp ch ''ew_score'' = JNull
         then Inr None else parseHandScore d ''change log change'' ch) = Inr x" and
    c: "change c = x"
    unfolding parseChange_def by (auto simp: bindE_Inr)
  from assertType_required_object[OF a] obtain kvs where ch: "ch = ?ch" and o: "?ch = JObj kvs"
    by blast
  show ?thesis
  proof (cases "isDeletion entry")
    case True
    with b ch c have "change c = None" by (auto simp: isDeletion_def split: if_splits)
    with True show ?thesis by simp
  next
    case False
    with b ch have p: "parseHandScore d ''change log change'' ?ch = Inr x"
      by (auto simp: isDeletion_def split: if_splits)
    then have s: "\<exists>hs. x = Some hs" unfolding o by (rule parseHandScore_present)
    with False p c show ?thesis by auto
  qed
qed

lemma parseChange_wellFormed:
  assumes "wellFormedChange d entry"
  shows "parseChange d entry
           = Inr \<lparr>change = (if isDeletion entry then None
                            else Some (expectedScore d (getProp entry ''change''))),
                  changedBy = getProp entry ''changed_by'',
                  timestamp = formatTimestamp d (getProp entry ''timestamp_sec'')\<rparr>"
proof -
  let ?ch = "getProp entry ''change''"
  from assms obtain ekvs where eo: "entry = JObj ekvs"
    by (cases entry) (simp_all add: wellFormedChange_def)
  from assms eo obtain str where str: "getProp entry ''timestamp_sec'' = JStr str"
    by (cases "getProp entry ''timestamp_sec''") (simp_all add: wellFormedChange_def)
  from assms eo obtain n where n: "getProp entry ''changed_by'' = JNum n"
    by (cases "getProp entry ''changed_by''") (simp_all add: wellFormedChange_def)
  from assms eo obtain kvs where o: "?ch = JObj kvs"
    by (cases ?ch) (simp_all add: wellFormedChange_def)
  from assms eo o have w: "isDeletion entry \<or> wellFormedScore d ?ch"
    by (simp add: wellFormedChange_def)
  have e1: "getPropE entry ''timestamp_sec'' = Inr (JStr str)"
    by (simp add: getPropE_def eo str[unfolded eo])
  have e2: "assertType ''change log timestamp'' (JStr str) ''string'' False = Inr (JStr str)"
    by (simp add: assertType_def typeName_def)
  have e3: "assertType ''change log changedby'' (getProp entry ''changed_by'') ''number'' False
              = Inr (getProp entry ''changed_by'')"
    by (simp add: n assertType_def typeName_def)
  have e4: "assertType ''change log change'' ?ch ''object'' False = Inr ?ch"
    by (simp add: o assertType_def typeName_def)
  have e5: "(if getProp ?ch ''ns_score'' = JNull \<and> getProp ?ch ''ew_score'' = JNull
             then Inr None else parseHandScore d ''change log change'' ?ch)
            = Inr (if isDeletion entry then None else Some (expectedScore d ?ch))"
  proof (cases "isDeletion entry")
    case True
    then show ?thesis by (simp add: isDeletion_def)
  next
    case False
    with w have "wellFormedScore d ?ch" by simp
    from parseHandScore_wellFormed[OF this] False show ?thesis
      by (simp add: isDeletion_def)
  qed
  show ?thesis
    by (simp only: parseChange_def e1 bindE_Inr_simp e2 e3 e4 e5 str)
qed

text \<open>
  Claim C9. Every well-formed entry of the change log is accepted by \<^verbatim>\<open>_parseChange\<close>,
  with a null change for a deletion and the parsed score otherwise. For an entry that \<^verbatim>\<open>_parseChange\<close> accepts, the change of the result is null if and
  only if \<^verbatim>\<open>ns_score\<close> and \<^verbatim>\<open>ew_score\<close> of the entry's change are both null;
  otherwise it is the hand score parsed from the entry's change.
\<close>

theorem parseChange_null_iff_deletion:
  "(wellFormedChange d entry \<longrightarrow>
      parseChange d entry
        = Inr \<lparr>change = (if isDeletion entry then None
                         else Some (expectedScore d (getProp entry ''change''))),
               changedBy = getProp entry ''changed_by'',
               timestamp = formatTimestamp d (getProp entry ''timestamp_sec'')\<rparr>) \<and>
   (parseChange d entry = Inr c \<longrightarrow>
      (change c = None \<longleftrightarrow>
         getProp (getProp entry ''change'') ''ns_score'' = JNull
         \<and> getProp (getProp entry ''change'') ''ew_score'' = JNull) \<and>
      (\<not> (getProp (getProp entry ''change'') ''ns_score'' = JNull
          \<and> getProp (getProp entry ''change'') ''ew_score'' = JNull)
         \<longrightarrow> parseHandScore d ''change log change'' (getProp entry ''change'')
               = Inr (change c)))"
proof (intro conjI impI)
  assume "wellFormedChange d entry"
  then show "parseChange d entry
        = Inr \<lparr>change = (if isDeletion entry then None
                         else Some (expectedScore d (getProp entry ''change''))),
               changedBy = getProp entry ''changed_by'',
               timestamp = formatTimestamp d (getProp entry ''timestamp_sec'')\<rparr>"
    by (rule parseChange_wellFormed)
next
  assume p: "parseChange d entry = Inr c"
  from parseChange_accepted[OF p]
  show "change c = None \<longleftrightarrow>
         getProp (getProp entry ''change'') ''ns_score'' = JNull
         \<and> getProp (getProp entry ''change'') ''ew_score'' = JNull"
    by (simp add: isDeletion_def)
  assume n: "\<not> (getProp (getProp entry ''change'') ''ns_score'' = JNull
          \<and> getProp (getProp entry ''change'') ''ew_score'' = JNull)"
  with parseChange_accepted[OF p]
  show "parseHandScore d ''change log change'' (getProp entry ''change'') = Inr (change c)"
    by (simp add: isDeletion_def)
qed

lemma exampleChange_wellFormed: "wellFormedChange exampleDeps exampleChange"
  using exampleScoreData_wellFormed
  by (simp add: wellFormedChange_def exampleChange_def getProp_def exampleScoreData_def)

lemma exampleDeletion_wellFormed:
  "wellFormedChange exampleDeps exampleDeletion \<and> isDeletion exampleDeletion"
  by (simp add: wellFormedChange_def exampleDeletion_def getProp_def isDeletion_def)

theorem parseChange_null_iff_deletion_witness:
  "wellFormedChange exampleDeps exampleDeletion \<and>
   parseChange exampleDeps exampleDeletion
     = Inr \<lparr>change = None, changedBy = JNum 0, timestamp = ''1482804384.03''\<rparr> \<and>
   wellFormedChange exampleDeps exampleChange \<and>
   parseChange exampleDeps exampleChange
     = Inr \<lparr>change = Some exampleScore, changedBy = JNum 1, timestamp = ''1482804837.85''\<rparr>"
proof -
  have a: "getProp exampleChange ''change'' = exampleScoreData"
    and b: "\<not> isDeletion exampleChange"
    and c: "getProp exampleChange ''changed_by'' = JNum 1"
    and d: "formatTimestamp exampleDeps (getProp exampleChange ''timestamp_sec'') = ''1482804837.85''"
    by (simp_all add: exampleChange_def getProp_def isDeletion_def exampleScoreData_def
          exampleDeps_def)
  have e: "getProp exampleDeletion ''changed_by'' = JNum 0"
    and f: "formatTimestamp exampleDeps (getProp exampleDeletion ''timestamp_sec'')
              = ''1482804384.03''"
    by (simp_all add: exampleDeletion_def getProp_def exampleDeps_def)
  from parseChange_null_iff_deletion[of exampleDeps exampleDeletion] exampleDeletion_wellFormed
  have "parseChange exampleDeps exampleDeletion
     = Inr \<lparr>change = None, changedBy = JNum 0, timestamp = ''1482804384.03''\<rparr>"
    by (simp add: e f)
  moreover
  from parseChange_null_iff_deletion[of exampleDeps exampleChange] exampleChange_wellFormed
  have "parseChange exampleDeps exampleChange
     = Inr \<lparr>change = Some exampleScore, changedBy = JNum 1, timestamp = ''1482804837.85''\<rparr>"
    by (simp add: a b c d expectedScore_exampleScoreData)
  ultimately show ?thesis
    using exampleChange_wellFormed exampleDeletion_wellFormed by simp
qed

subsection \<open>Movement rounds\<close>


























subsection \<open>Requests for a movement\<close>








end
